theory Spec2Isabelle
  imports Main "HOL-Library.AList"
begin

section \<open>The raw configuration document\<close>

text \<open>
  The flow configuration is the tree that \<open>json_load\<close> returns: dictionaries, lists,
  strings, numbers, booleans and \<open>None\<close>. A dictionary is an association list in
  insertion order. \<open>json_load\<close> gives every dictionary string keys, but \<open>dict.update\<close>
  can add a key that is a number, a boolean or \<open>None\<close>, so a key is any hashable
  scalar. Numbers are integers, and a string is the list of its characters, one \<open>char\<close>
  for each.
\<close>

datatype key = KNull | KBool bool | KNum int | KStr string

datatype json =
    JNull
  | JBool bool
  | JNum int
  | JStr string
  | JList "json list"
  | JDict "(key \<times> json) list"

type_synonym dict = "(key \<times> json) list"

datatype py_error = KeyError | AttributeError | TypeError | IndexError | ValueError

text \<open>
  \<open>d.get(name)\<close> with a string: the value of the key, \<open>None\<close> when the key is absent.
  A string equals no key of another type.
\<close>

definition py_get :: "dict \<Rightarrow> string \<Rightarrow> json" where
  "py_get d name = (case map_of d (KStr name) of None \<Rightarrow> JNull | Some v \<Rightarrow> v)"

text \<open>\<open>obj[key]\<close> with a string key: only a dictionary holding the key answers.\<close>

definition subscript :: "json \<Rightarrow> string \<Rightarrow> py_error + json" where
  "subscript obj key =
     (case obj of
        JDict kvs \<Rightarrow> (case map_of kvs (KStr key) of None \<Rightarrow> Inl KeyError | Some v \<Rightarrow> Inr v)
      | _ \<Rightarrow> Inl TypeError)"

text \<open>
  \<open>obj.get(name)\<close> on an arbitrary value: only dictionaries have the attribute.
\<close>

definition attr_get :: "json \<Rightarrow> string \<Rightarrow> py_error + json" where
  "attr_get obj name =
     (case obj of JDict kvs \<Rightarrow> Inr (py_get kvs name) | _ \<Rightarrow> Inl AttributeError)"

text \<open>
  \<open>d[k] = v\<close>. Keys are compared as Python compares them: \<open>True\<close> and \<open>False\<close> are the
  keys 1 and 0. A key that is present keeps its place and its own spelling and takes the
  new value; a new key goes to the end. For a string key this is \<open>AList.update\<close>, which
  the functions below use where the source assigns at a string.
\<close>

fun norm_key :: "key \<Rightarrow> key" where
  "norm_key (KBool b) = KNum (if b then 1 else 0)"
| "norm_key k = k"

fun py_setitem :: "key \<Rightarrow> json \<Rightarrow> dict \<Rightarrow> dict" where
  "py_setitem k v [] = [(k, v)]"
| "py_setitem k v ((k', v') # rest) =
     (if norm_key k' = norm_key k then (k', v) # rest else (k', v') # py_setitem k v rest)"

text \<open>
  \<open>a.update(b)\<close> for a dictionary \<open>b\<close>: every item of \<open>b\<close> is assigned into \<open>a\<close>, in the
  order of \<open>b\<close>.
\<close>

definition dict_update :: "dict \<Rightarrow> dict \<Rightarrow> dict" where
  "dict_update a b = fold (\<lambda>(k, v) acc. py_setitem k v acc) b a"

text \<open>Truth value of an argument of type \<open>str | None\<close>.\<close>

fun truthy :: "string option \<Rightarrow> bool" where
  "truthy None = False"
| "truthy (Some s) = (s \<noteq> [])"

text \<open>
  The functions of the override store hand out references to dictionaries that live
  inside the document and mutate them in place. The document is a tree (nothing in a
  freshly loaded document is shared), so a reference is the path of keys from the root:
  \<open>deref\<close> reads the object a path names, \<open>assign\<close> replaces it.
\<close>

fun deref :: "json \<Rightarrow> string list \<Rightarrow> json option" where
  "deref j [] = Some j"
| "deref (JDict kvs) (k # ks) =
     (case map_of kvs (KStr k) of None \<Rightarrow> None | Some c \<Rightarrow> deref c ks)"
| "deref _ (k # ks) = None"

fun assign :: "json \<Rightarrow> string list \<Rightarrow> json \<Rightarrow> json" where
  "assign j [] v = v"
| "assign (JDict kvs) (k # ks) v =
     JDict (AList.update (KStr k) (assign (py_get kvs k) ks v) kvs)"
| "assign j (k # ks) v = j"

section \<open>Override store\<close>

text \<open>
  \<^verbatim>\<open>
  def _get_lazy_dict(parent: dict, name: str):
      d = parent.get(name)
      if d is None:
          d = {}
          parent[name] = d
      return d
  \<close>
  The parent is given by its path in the document; the result is the path of \<open>d\<close> and
  the document after the call.
\<close>

definition get_lazy_dict ::
  "json \<Rightarrow> string list \<Rightarrow> string \<Rightarrow> (py_error + string list) \<times> json" where
  "get_lazy_dict flow parent name =
     (case deref flow parent of
        Some (JDict kvs) \<Rightarrow>
          (if py_get kvs name = JNull
           then (Inr (parent @ [name]), assign flow (parent @ [name]) (JDict []))
           else (Inr (parent @ [name]), flow))
      | _ \<Rightarrow> (Inl AttributeError, flow))"

text \<open>
  \<^verbatim>\<open>
  def _get_ov_dict(dname, flow, platform=None, stage=None):
      if not platform:
          return _get_lazy_dict(flow, dname)
      platform_dict: dict = flow[platform]
      if stage:
          stage_dict: dict = _get_lazy_dict(platform_dict, stage)
          return _get_lazy_dict(stage_dict, dname)
      return _get_lazy_dict(platform_dict, dname)
  \<close>
\<close>

definition get_ov_dict ::
  "string \<Rightarrow> json \<Rightarrow> string option \<Rightarrow> string option \<Rightarrow> (py_error + string list) \<times> json" where
  "get_ov_dict dname flow platform stage =
     (if \<not> truthy platform then get_lazy_dict flow [] dname
      else
        (case subscript flow (the platform) of
           Inl e \<Rightarrow> (Inl e, flow)
         | Inr _ \<Rightarrow>
             (if truthy stage then
                (case get_lazy_dict flow [the platform] (the stage) of
                   (Inl e, flow1) \<Rightarrow> (Inl e, flow1)
                 | (Inr stage_dict, flow1) \<Rightarrow> get_lazy_dict flow1 stage_dict dname)
              else get_lazy_dict flow [the platform] dname)))"

definition get_dep_dict ::
  "json \<Rightarrow> string option \<Rightarrow> string option \<Rightarrow> (py_error + string list) \<times> json" where
  "get_dep_dict flow platform stage = get_ov_dict ''dependencies'' flow platform stage"

definition get_vals_dict ::
  "json \<Rightarrow> string option \<Rightarrow> string option \<Rightarrow> (py_error + string list) \<times> json" where
  "get_vals_dict flow platform stage = get_ov_dict ''values'' flow platform stage"

text \<open>
  The mutating operations return a boolean and print a message when they refuse. A result
  is the value returned (or the exception raised), the lines printed, and the document
  after the call; the document is part of the result also when an exception is raised,
  because what was mutated before the raise stays mutated.
\<close>

type_synonym 'a outcome = "(py_error + 'a) \<times> string list \<times> json"

text \<open>
  \<^verbatim>\<open>
  def _add_ov(ov_dict_getter, failstr_constr, flow_cfg, name, values,
              platform=None, stage=None) -> bool:
      d = ov_dict_getter(flow_cfg, platform, stage)
      deps = d.get(name)
      if type(deps) is list:
          deps += values
          return True
      if deps is None:
          d[name] = values
          return True
      print(failstr_constr(name))
      return False
  \<close>
\<close>

definition add_ov ::
  "(json \<Rightarrow> string option \<Rightarrow> string option \<Rightarrow> (py_error + string list) \<times> json) \<Rightarrow>
   (string \<Rightarrow> string) \<Rightarrow> json \<Rightarrow> string \<Rightarrow> json list \<Rightarrow>
   string option \<Rightarrow> string option \<Rightarrow> bool outcome" where
  "add_ov ov_dict_getter failstr_constr flow_cfg name vals platform stage =
     (case ov_dict_getter flow_cfg platform stage of
        (Inl e, flow1) \<Rightarrow> (Inl e, [], flow1)
      | (Inr d, flow1) \<Rightarrow>
          (case deref flow1 d of
             Some (JDict kvs) \<Rightarrow>
               (case py_get kvs name of
                  JList deps \<Rightarrow> (Inr True, [], assign flow1 (d @ [name]) (JList (deps @ vals)))
                | JNull \<Rightarrow> (Inr True, [], assign flow1 (d @ [name]) (JList vals))
                | _ \<Rightarrow> (Inr False, [failstr_constr name], flow1))
           | _ \<Rightarrow> (Inl AttributeError, [], flow1)))"

text \<open>
  Membership in \<open>set(vals)\<close>. Lists and dictionaries are unhashable, and building the
  set or probing it with one raises \<open>TypeError\<close>; \<open>True\<close> and \<open>False\<close> hash and compare
  as the numbers 1 and 0.
\<close>

fun hashable :: "json \<Rightarrow> bool" where
  "hashable (JList _) = False"
| "hashable (JDict _) = False"
| "hashable _ = True"

fun py_key :: "json \<Rightarrow> json" where
  "py_key (JBool b) = JNum (if b then 1 else 0)"
| "py_key j = j"

definition py_in :: "json \<Rightarrow> json list \<Rightarrow> bool" where
  "py_in val vals = (py_key val \<in> set (map py_key vals))"

text \<open>
  \<open>[val for val in vallist if val not in set(vals)]\<close>: the set is built once for each
  element of \<open>vallist\<close>, so nothing is raised when \<open>vallist\<close> is empty.
\<close>

definition filter_not_in :: "json list \<Rightarrow> json list \<Rightarrow> py_error + json list" where
  "filter_not_in vallist vals =
     (if vallist = [] then Inr []
      else if \<not> list_all hashable vals then Inl TypeError
      else if \<not> list_all hashable vallist then Inl TypeError
      else Inr (filter (\<lambda>val. \<not> py_in val vals) vallist))"

text \<open>
  \<^verbatim>\<open>
  def _rm_ov_by_values(ov_dict_getter, notset_str_constr, notlist_str_constr,
                       flow, name, vals, platform=None, stage=None) -> bool:
      d = ov_dict_getter(flow, platform, stage)
      vallist: list = d.get(name)
      if type(vallist) is list:
          d[name] = [val for val in vallist if val not in set(vals)]
          return True
      if type(vallist) is None:
          print(notset_str_constr(name))
          return False
      print(notlist_str_constr(name))
      return False
  \<close>
  \<open>type(vallist)\<close> is a type object, which is never the object \<open>None\<close>.
\<close>

definition type_is_None :: "json \<Rightarrow> bool" where
  "type_is_None v = False"

definition rm_ov_by_values ::
  "(json \<Rightarrow> string option \<Rightarrow> string option \<Rightarrow> (py_error + string list) \<times> json) \<Rightarrow>
   (string \<Rightarrow> string) \<Rightarrow> (string \<Rightarrow> string) \<Rightarrow> json \<Rightarrow> string \<Rightarrow> json list \<Rightarrow>
   string option \<Rightarrow> string option \<Rightarrow> bool outcome" where
  "rm_ov_by_values ov_dict_getter notset_str_constr notlist_str_constr flow name vals
       platform stage =
     (case ov_dict_getter flow platform stage of
        (Inl e, flow1) \<Rightarrow> (Inl e, [], flow1)
      | (Inr d, flow1) \<Rightarrow>
          (case deref flow1 d of
             Some (JDict kvs) \<Rightarrow>
               (case py_get kvs name of
                  JList vallist \<Rightarrow>
                    (case filter_not_in vallist vals of
                       Inl e \<Rightarrow> (Inl e, [], flow1)
                     | Inr kept \<Rightarrow> (Inr True, [], assign flow1 (d @ [name]) (JList kept)))
                | vallist \<Rightarrow>
                    (if type_is_None vallist then (Inr False, [notset_str_constr name], flow1)
                     else (Inr False, [notlist_str_constr name], flow1)))
           | _ \<Rightarrow> (Inl AttributeError, [], flow1)))"

text \<open>Decimal digits of a natural number, as an f-string prints it.\<close>

function str_of_nat :: "nat \<Rightarrow> string" where
  "str_of_nat n =
     (if n < 10 then [char_of (48 + n)]
      else str_of_nat (n div 10) @ [char_of (48 + n mod 10)])"
  by pat_completeness auto
termination
  by (relation "measure id") auto

declare str_of_nat.simps [simp del]

text \<open>
  \<open>vallist.pop(idx)\<close>: a negative index counts from the end; an index outside the list
  raises \<open>IndexError\<close>.
\<close>

definition list_pop :: "json list \<Rightarrow> int \<Rightarrow> py_error + json list" where
  "list_pop xs i =
     (let n = int (length xs); j = (if i < 0 then i + n else i)
      in if 0 \<le> j \<and> j < n then Inr (take (nat j) xs @ drop (Suc (nat j)) xs)
         else Inl IndexError)"

text \<open>
  \<open>for idx in idcs: vallist.pop(idx)\<close>: the list is mutated at every step, and a raise
  leaves it as it was at that step.
\<close>

fun pop_all :: "json list \<Rightarrow> int list \<Rightarrow> (py_error + unit) \<times> json list" where
  "pop_all xs [] = (Inr (), xs)"
| "pop_all xs (idx # idcs) =
     (case list_pop xs idx of
        Inl e \<Rightarrow> (Inl e, xs)
      | Inr xs' \<Rightarrow> pop_all xs' idcs)"

text \<open>
  \<^verbatim>\<open>
  def _rm_ov_by_idx(ov_dict_getter, notset_str_constr, notlist_str_constr,
                    flow, name, idcs, platform=None, stage=None) -> bool:
      idcs.sort(reverse=True)
      if len(idcs) == 0:
          print(f'Index list is emtpy!')
          return False
      d = ov_dict_getter(flow, platform, stage)
      vallist: list = d.get(name)
      if type(vallist) is list:
          if idcs[0] >= len(vallist) or idcs[len(idcs) - 1] < 0:
              print(f'Index out of range (max: {len(vallist)}!')
              return False
          for idx in idcs:
              vallist.pop(idx)
          return True
      if vallist is None:
          print(notset_str_constr(name))
          return False
      print(notlist_str_constr(name))
      return False
  \<close>
\<close>

definition rm_ov_by_idx ::
  "(json \<Rightarrow> string option \<Rightarrow> string option \<Rightarrow> (py_error + string list) \<times> json) \<Rightarrow>
   (string \<Rightarrow> string) \<Rightarrow> (string \<Rightarrow> string) \<Rightarrow> json \<Rightarrow> string \<Rightarrow> int list \<Rightarrow>
   string option \<Rightarrow> string option \<Rightarrow> bool outcome" where
  "rm_ov_by_idx ov_dict_getter notset_str_constr notlist_str_constr flow name idcs0
       platform stage =
     (let idcs = rev (sort idcs0) in
      if length idcs = 0 then (Inr False, [''Index list is emtpy!''], flow)
      else
        (case ov_dict_getter flow platform stage of
           (Inl e, flow1) \<Rightarrow> (Inl e, [], flow1)
         | (Inr d, flow1) \<Rightarrow>
             (case deref flow1 d of
                Some (JDict kvs) \<Rightarrow>
                  (case py_get kvs name of
                     JList vallist \<Rightarrow>
                       (if hd idcs \<ge> int (length vallist) \<or> last idcs < 0
                        then (Inr False,
                              [''Index out of range (max: '' @ str_of_nat (length vallist) @ ''!''],
                              flow1)
                        else
                          (case pop_all vallist idcs of
                             (Inl e, left) \<Rightarrow> (Inl e, [], assign flow1 (d @ [name]) (JList left))
                           | (Inr _, left) \<Rightarrow>
                               (Inr True, [], assign flow1 (d @ [name]) (JList left))))
                   | JNull \<Rightarrow> (Inr False, [notset_str_constr name], flow1)
                   | _ \<Rightarrow> (Inr False, [notlist_str_constr name], flow1))
              | _ \<Rightarrow> (Inl AttributeError, [], flow1))))"

section \<open>Raw aggregator\<close>

text \<open>
  \<open>a.update(other)\<close> for an argument that is not a dictionary. Python iterates the
  argument and takes every element as a pair, in order, assigning as it goes; what was
  assigned before a raise stays assigned.
  \<^item> \<open>None\<close>, a boolean or a number is not iterable: \<open>TypeError\<close>.
  \<^item> A list is iterated element by element. A string is iterated character by
    character, and a character is a sequence of length 1, so every string but the
    empty one raises \<open>ValueError\<close> at its first character.
  \<^item> An element is turned into a sequence: a list gives its elements, a string its
    characters, a dictionary its keys; \<open>None\<close>, a boolean or a number raises
    \<open>TypeError\<close>. A sequence whose length is not 2 raises \<open>ValueError\<close>.
  \<^item> The first component is the key and must be hashable: a list or a dictionary
    raises \<open>TypeError\<close>.
\<close>

fun json_of_key :: "key \<Rightarrow> json" where
  "json_of_key KNull = JNull"
| "json_of_key (KBool b) = JBool b"
| "json_of_key (KNum n) = JNum n"
| "json_of_key (KStr s) = JStr s"

fun key_of :: "json \<Rightarrow> key option" where
  "key_of JNull = Some KNull"
| "key_of (JBool b) = Some (KBool b)"
| "key_of (JNum n) = Some (KNum n)"
| "key_of (JStr s) = Some (KStr s)"
| "key_of (JList _) = None"
| "key_of (JDict _) = None"

fun pair_of :: "json \<Rightarrow> py_error + json \<times> json" where
  "pair_of (JList [k, v]) = Inr (k, v)"
| "pair_of (JList _) = Inl ValueError"
| "pair_of (JStr [c, c']) = Inr (JStr [c], JStr [c'])"
| "pair_of (JStr _) = Inl ValueError"
| "pair_of (JDict [(k, _), (k', _)]) = Inr (json_of_key k, json_of_key k')"
| "pair_of (JDict _) = Inl ValueError"
| "pair_of _ = Inl TypeError"

fun merge_pairs :: "dict \<Rightarrow> json list \<Rightarrow> (py_error + unit) \<times> dict" where
  "merge_pairs a [] = (Inr (), a)"
| "merge_pairs a (item # items) =
     (case pair_of item of
        Inl e \<Rightarrow> (Inl e, a)
      | Inr (k, v) \<Rightarrow>
          (case key_of k of
             None \<Rightarrow> (Inl TypeError, a)
           | Some k' \<Rightarrow> merge_pairs (py_setitem k' v a) items))"

fun update_dict :: "dict \<Rightarrow> json \<Rightarrow> (py_error + unit) \<times> dict" where
  "update_dict a (JDict b) = (Inr (), dict_update a b)"
| "update_dict a (JList items) = merge_pairs a items"
| "update_dict a (JStr s) = merge_pairs a (map (\<lambda>c. JStr [c]) s)"
| "update_dict a _ = (Inl TypeError, a)"

text \<open>
  \<open>vals.update(other)\<close> on an arbitrary \<open>vals\<close>: a value that is not a dictionary has no
  \<open>update\<close> attribute. The result carries \<open>vals\<close> as the call left it.
\<close>

fun py_update :: "json \<Rightarrow> json \<Rightarrow> (py_error + unit) \<times> json" where
  "py_update (JDict a) other = (case update_dict a other of (r, a') \<Rightarrow> (r, JDict a'))"
| "py_update vals _ = (Inl AttributeError, vals)"

text \<open>
  \<^verbatim>\<open>
  def _get_ovs_raw(dict_name, flow_cfg, platform, stage):
      vals = flow_cfg.get(dict_name)
      if vals is None:
          vals = {}
      if platform is not None:
          platform_vals= flow_cfg[platform].get(dict_name)
          if platform_vals is not None:
              vals.update(platform_vals)
          if stage is not None:
              stage_deps = flow_cfg[platform][stage].get(dict_name)
              if stage_deps is not None:
                  vals.update(stage_deps)
      return vals
  \<close>
  When the document has a global map for \<open>dict_name\<close>, \<open>vals\<close> is that very object, and
  \<open>vals.update\<close> writes into the document: \<open>store_vals\<close> puts the updated map back at the
  key \<open>dict_name\<close>. When it has none, \<open>vals\<close> is a fresh dictionary and the document is
  left alone. \<open>update_from\<close> is the step that the function takes for the platform and
  again for the stage: \<open>ovs = scope.get(dict_name)\<close>, and \<open>vals.update(ovs)\<close> unless
  \<open>ovs\<close> is \<open>None\<close>. When the update raises, what it had assigned before stays in the
  map, and so in the document. The stage is read from the document as the first update
  left it.
\<close>

definition store_vals :: "string \<Rightarrow> json \<Rightarrow> json \<Rightarrow> json \<Rightarrow> json" where
  "store_vals dict_name global flow vals =
     (if global = JNull then flow else assign flow [dict_name] vals)"

definition update_from ::
  "string \<Rightarrow> json \<Rightarrow> json \<Rightarrow> json \<Rightarrow> json \<Rightarrow> (py_error + json) \<times> json" where
  "update_from dict_name global flow vals scope =
     (case attr_get scope dict_name of
        Inl e \<Rightarrow> (Inl e, flow)
      | Inr ovs \<Rightarrow>
          (if ovs = JNull then (Inr vals, flow)
           else
             (case py_update vals ovs of
                (Inl e, vals') \<Rightarrow> (Inl e, store_vals dict_name global flow vals')
              | (Inr _, vals') \<Rightarrow> (Inr vals', store_vals dict_name global flow vals'))))"

definition get_ovs_raw ::
  "string \<Rightarrow> json \<Rightarrow> string option \<Rightarrow> string option \<Rightarrow> (py_error + json) \<times> json" where
  "get_ovs_raw dict_name flow_cfg platform stage =
     (case attr_get flow_cfg dict_name of
        Inl e \<Rightarrow> (Inl e, flow_cfg)
      | Inr global \<Rightarrow>
          (let vals = (if global = JNull then JDict [] else global) in
           case platform of
             None \<Rightarrow> (Inr vals, flow_cfg)
           | Some p \<Rightarrow>
               (case subscript flow_cfg p of
                  Inl e \<Rightarrow> (Inl e, flow_cfg)
                | Inr platform_dict \<Rightarrow>
                    (case update_from dict_name global flow_cfg vals platform_dict of
                       (Inl e, flow1) \<Rightarrow> (Inl e, flow1)
                     | (Inr vals1, flow1) \<Rightarrow>
                         (case stage of
                            None \<Rightarrow> (Inr vals1, flow1)
                          | Some s \<Rightarrow>
                              (case subscript flow1 p of
                                 Inl e \<Rightarrow> (Inl e, flow1)
                               | Inr platform_dict1 \<Rightarrow>
                                   (case subscript platform_dict1 s of
                                      Inl e \<Rightarrow> (Inl e, flow1)
                                    | Inr stage_dict \<Rightarrow>
                                        update_from dict_name global flow1 vals1 stage_dict)))))))"

section \<open>Named wrappers\<close>

text \<open>
  The four removal functions pass a getter and two message constructors to the generic
  ones. \<open>_remove_values_by_idx\<close> words its messages with ``Dependency'', as the source
  does:
  \<^verbatim>\<open>
  def _remove_values_by_idx(flow, name, idcs, platform=None, stage=None) -> bool:
      def notset_str_constr(dname):
          return f'Dependency `{dname}` is not set. Nothing to remove.'
      def notlist_str_constr(dname):
          return f'Dependency `{dname}` is not a list! Use unsetv instead.'
      return _rm_ov_by_idx(_get_vals_dict, notset_str_constr, notlist_str_constr,
                           flow, name, idcs, platform, stage)
  \<close>
\<close>

definition dep_notset_str_constr :: "string \<Rightarrow> string" where
  "dep_notset_str_constr dname = ''Dependency `'' @ dname @ ''` is not set. Nothing to remove.''"

definition dep_notlist_str_constr :: "string \<Rightarrow> string" where
  "dep_notlist_str_constr dname = ''Dependency `'' @ dname @ ''` is not a list! Use unsetd instead.''"

definition val_notset_str_constr :: "string \<Rightarrow> string" where
  "val_notset_str_constr vname = ''Value `'' @ vname @ ''` is not set. Nothing to remove.''"

definition val_notlist_str_constr :: "string \<Rightarrow> string" where
  "val_notlist_str_constr vname = ''Value `'' @ vname @ ''` is not a list! Use unsetv instead.''"

definition idx_notlist_str_constr :: "string \<Rightarrow> string" where
  "idx_notlist_str_constr dname = ''Dependency `'' @ dname @ ''` is not a list! Use unsetv instead.''"

definition remove_dependencies_by_values ::
  "json \<Rightarrow> string \<Rightarrow> json list \<Rightarrow> string option \<Rightarrow> string option \<Rightarrow> bool outcome" where
  "remove_dependencies_by_values flow name deps platform stage =
     rm_ov_by_values get_dep_dict dep_notset_str_constr dep_notlist_str_constr
       flow name deps platform stage"

definition remove_dependencies_by_idx ::
  "json \<Rightarrow> string \<Rightarrow> int list \<Rightarrow> string option \<Rightarrow> string option \<Rightarrow> bool outcome" where
  "remove_dependencies_by_idx flow name idcs platform stage =
     rm_ov_by_idx get_dep_dict dep_notset_str_constr dep_notlist_str_constr
       flow name idcs platform stage"

definition remove_values_by_values ::
  "json \<Rightarrow> string \<Rightarrow> json list \<Rightarrow> string option \<Rightarrow> string option \<Rightarrow> bool outcome" where
  "remove_values_by_values flow name deps platform stage =
     rm_ov_by_values get_vals_dict val_notset_str_constr val_notlist_str_constr
       flow name deps platform stage"

definition remove_values_by_idx ::
  "json \<Rightarrow> string \<Rightarrow> int list \<Rightarrow> string option \<Rightarrow> string option \<Rightarrow> bool outcome" where
  "remove_values_by_idx flow name idcs platform stage =
     rm_ov_by_idx get_vals_dict dep_notset_str_constr idx_notlist_str_constr
       flow name idcs platform stage"

text \<open>
  \<^verbatim>\<open>
  def unset_dependency(flow, name, platform, stage):
      d = _get_dep_dict(flow, platform, stage)
      if d.get(name) is None:
          print(f'Dependency `{name}` is not set!')
          return False
      d.pop(name)
      return True
  \<close>
\<close>

definition unset_dependency ::
  "json \<Rightarrow> string \<Rightarrow> string option \<Rightarrow> string option \<Rightarrow> bool outcome" where
  "unset_dependency flow name platform stage =
     (case get_dep_dict flow platform stage of
        (Inl e, flow1) \<Rightarrow> (Inl e, [], flow1)
      | (Inr d, flow1) \<Rightarrow>
          (case deref flow1 d of
             Some (JDict kvs) \<Rightarrow>
               (if py_get kvs name = JNull
                then (Inr False, [''Dependency `'' @ name @ ''` is not set!''], flow1)
                else (Inr True, [], assign flow1 d (JDict (AList.delete (KStr name) kvs))))
           | _ \<Rightarrow> (Inl AttributeError, [], flow1)))"

section \<open>Project flow configuration\<close>

text \<open>
  \<^verbatim>\<open>
  def _is_kword(w: str):
      return \
          (w == 'dependencies') | (w == 'values') | \
          (w == 'default_platform') | (w == 'default_target')
  \<close>
\<close>

definition is_kword :: "key \<Rightarrow> bool" where
  "is_kword w \<longleftrightarrow>
     w = KStr ''dependencies'' \<or> w = KStr ''values'' \<or>
     w = KStr ''default_platform'' \<or> w = KStr ''default_target''"

record ProjectFlowConfig =
  flow_cfg :: json
  path :: string

text \<open>
  \<^verbatim>\<open>
  def platforms(self):
      for platform, _ in self.flow_cfg.items():
          if not _is_kword(platform):
              yield platform
  \<close>
  The keys of the document are tested as they are, so \<open>is_kword\<close> takes a key; a key
  that is not a string equals no keyword.
\<close>

definition platforms :: "ProjectFlowConfig \<Rightarrow> py_error + key list" where
  "platforms self =
     (case flow_cfg self of
        JDict kvs \<Rightarrow> Inr (filter (\<lambda>platform. \<not> is_kword platform) (map fst kvs))
      | _ \<Rightarrow> Inl AttributeError)"

text \<open>Truth value of an arbitrary value, as \<open>if d:\<close> tests it.\<close>

fun py_bool :: "json \<Rightarrow> bool" where
  "py_bool JNull = False"
| "py_bool (JBool b) = b"
| "py_bool (JNum n) = (n \<noteq> 0)"
| "py_bool (JStr s) = (s \<noteq> [])"
| "py_bool (JList xs) = (xs \<noteq> [])"
| "py_bool (JDict kvs) = (kvs \<noteq> [])"

text \<open>
  \<^verbatim>\<open>
  def add_platform(self, device: str) -> bool:
      d = self.flow_cfg.get(device)
      if d:
          print(f'Device {device} already exists')
          return False
      self.flow_cfg[device] = {}
      return True
  \<close>
\<close>

definition add_platform ::
  "ProjectFlowConfig \<Rightarrow> string \<Rightarrow> (py_error + bool) \<times> string list \<times> ProjectFlowConfig" where
  "add_platform self device =
     (case flow_cfg self of
        JDict kvs \<Rightarrow>
          (if py_bool (py_get kvs device)
           then (Inr False, [''Device '' @ device @ '' already exists''], self)
           else (Inr True, [], self\<lparr>flow_cfg := JDict (AList.update (KStr device) (JDict []) kvs)\<rparr>))
      | _ \<Rightarrow> (Inl AttributeError, [], self))"

text \<open>
  \<^verbatim>\<open>
  def get_dependencies_raw(self, platform=None):
      return _get_ovs_raw('dependencies', self.flow_cfg, platform, None)

  def get_values_raw(self, platform=None, stage=None):
      return _get_ovs_raw('values', self.flow_cfg, platform, stage)
  \<close>
\<close>

definition get_dependencies_raw ::
  "ProjectFlowConfig \<Rightarrow> string option \<Rightarrow> (py_error + json) \<times> ProjectFlowConfig" where
  "get_dependencies_raw self platform =
     (case get_ovs_raw ''dependencies'' (flow_cfg self) platform None of
        (r, flow1) \<Rightarrow> (r, self\<lparr>flow_cfg := flow1\<rparr>))"

definition get_values_raw ::
  "ProjectFlowConfig \<Rightarrow> string option \<Rightarrow> string option \<Rightarrow>
   (py_error + json) \<times> ProjectFlowConfig" where
  "get_values_raw self platform stage =
     (case get_ovs_raw ''values'' (flow_cfg self) platform stage of
        (r, flow1) \<Rightarrow> (r, self\<lparr>flow_cfg := flow1\<rparr>))"

text \<open>
  \<^verbatim>\<open>
  def get_stage_value_overrides(self, platform: str, stage: str):
      stage_cfg = self.flow_cfg[platform].get(stage)
      if stage_cfg is None:
          return {}
      stage_vals_ovds = stage_cfg.get('values')
      if stage_vals_ovds is None:
          return {}
      return stage_vals_ovds
  \<close>
\<close>

definition get_stage_value_overrides ::
  "ProjectFlowConfig \<Rightarrow> string \<Rightarrow> string \<Rightarrow> py_error + json" where
  "get_stage_value_overrides self platform stage =
     (case subscript (flow_cfg self) platform of
        Inl e \<Rightarrow> Inl e
      | Inr platform_dict \<Rightarrow>
          (case attr_get platform_dict stage of
             Inl e \<Rightarrow> Inl e
           | Inr stage_cfg \<Rightarrow>
               (if stage_cfg = JNull then Inr (JDict [])
                else
                  (case attr_get stage_cfg ''values'' of
                     Inl e \<Rightarrow> Inl e
                   | Inr stage_vals_ovds \<Rightarrow>
                       (if stage_vals_ovds = JNull then Inr (JDict []) else Inr stage_vals_ovds)))))"

section \<open>Flow definition and flow configuration\<close>

text \<open>
  Modelled from the spec: the value-resolution environment (class \<open>ResolutionEnv\<close> of
  \<open>f4pga.common\<close>) and the stage collaborator (class \<open>Stage\<close> of \<open>f4pga.stage\<close>) are
  not part of the sources at hand. An environment is its mapping from names to values.
  \<open>add_values\<close> layers a mapping on top of it (``later values override earlier ones for
  the same name; non-overlapping names are additive''), and copy-construction gives an
  environment with the same values that shares nothing with the original. A stage is
  known by its name and its mutable mapping of value overrides.
\<close>

definition add_values :: "dict \<Rightarrow> dict \<Rightarrow> dict" where
  "add_values env mapping = dict_update env mapping"

definition copy_env :: "dict \<Rightarrow> dict" where
  "copy_env env = env"

record Stage =
  stage_name :: string
  value_overrides :: dict

text \<open>
  Environments and stage dictionaries are objects that several owners point to, so they
  live in a store and the classes hold addresses. Every address holds an object; nothing
  here allocates.
\<close>

type_synonym addr = nat

record heap =
  envs :: "addr \<Rightarrow> dict"
  stage_dicts :: "addr \<Rightarrow> (string \<times> Stage) list"

record FlowDefinition =
  fd_r_env :: addr
  fd_stages :: addr

record FlowConfig =
  fc_platform :: string
  fc_r_env :: addr
  dependencies_explicit :: json
  fc_stages :: addr

text \<open>
  \<^verbatim>\<open>
  def get_stage_r_env(self, stage_name: 'str') -> ResolutionEnv:
      stage = self.stages[stage_name]
      r_env = copy(self.r_env)
      r_env.add_values(stage.value_overrides)
      return r_env
  \<close>
  The environment returned is a new object, given here by its values.
\<close>

definition get_stage_r_env :: "heap \<Rightarrow> FlowDefinition \<Rightarrow> string \<Rightarrow> py_error + dict" where
  "get_stage_r_env h self name =
     (case map_of (stage_dicts h (fd_stages self)) name of
        None \<Rightarrow> Inl KeyError
      | Some stage \<Rightarrow> Inr (add_values (copy_env (envs h (fd_r_env self))) (value_overrides stage)))"

text \<open>
  \<^verbatim>\<open>
  for stage_name, stage in platform_def.stages.items():
      project_val_ovds = \
          project_config.get_stage_value_overrides(platform, stage_name)
      stage.value_overrides.update(project_val_ovds)
  \<close>
  A raise leaves the stages before it updated, and the stage at which the update raised
  with what that update had assigned.
\<close>

fun override_stages ::
  "ProjectFlowConfig \<Rightarrow> string \<Rightarrow> (string \<times> Stage) list \<Rightarrow>
   (py_error + unit) \<times> (string \<times> Stage) list" where
  "override_stages project_config platform [] = (Inr (), [])"
| "override_stages project_config platform ((name, stage) # rest) =
     (case get_stage_value_overrides project_config platform name of
        Inl e \<Rightarrow> (Inl e, (name, stage) # rest)
      | Inr project_val_ovds \<Rightarrow>
          (case update_dict (value_overrides stage) project_val_ovds of
             (Inl e, ovds) \<Rightarrow> (Inl e, (name, stage\<lparr>value_overrides := ovds\<rparr>) # rest)
           | (Inr _, ovds) \<Rightarrow>
               (case override_stages project_config platform rest of
                  (r, rest') \<Rightarrow> (r, (name, stage\<lparr>value_overrides := ovds\<rparr>) # rest'))))"

text \<open>
  \<^verbatim>\<open>
  def __init__(self, project_config, platform_def, platform):
      self.r_env = platform_def.r_env
      platform_vals = project_config.get_values_raw(platform)
      self.r_env.add_values(platform_vals)
      self.stages = platform_def.stages
      self.platform = platform
      raw_project_deps = project_config.get_dependencies_raw(platform)
      self.dependencies_explicit = \
          deep(lambda p: str(Path(p).resolve()))(self.r_env.resolve(raw_project_deps))
      for stage_name, stage in platform_def.stages.items():
          ...
  \<close>
  The resolution of references and of filesystem paths is the work of collaborators; it
  is the parameter \<open>resolve_paths\<close>, a function of the environment's values and the raw
  dependencies. A value handed to \<open>add_values\<close> that is not a mapping is outside the
  collaborator's contract, and the model raises \<open>TypeError\<close> for it.
\<close>

definition FlowConfig_init ::
  "(dict \<Rightarrow> json \<Rightarrow> json) \<Rightarrow> heap \<Rightarrow> ProjectFlowConfig \<Rightarrow> FlowDefinition \<Rightarrow> string \<Rightarrow>
   (py_error + FlowConfig) \<times> heap \<times> ProjectFlowConfig" where
  "FlowConfig_init resolve_paths h project_config platform_def platform =
     (let r = fd_r_env platform_def in
      case get_values_raw project_config (Some platform) None of
        (Inl e, pc1) \<Rightarrow> (Inl e, h, pc1)
      | (Inr platform_vals, pc1) \<Rightarrow>
          (case platform_vals of
             JDict mapping \<Rightarrow>
               (let h1 = h\<lparr>envs := (envs h)(r := add_values (envs h r) mapping)\<rparr> in
                case get_dependencies_raw pc1 (Some platform) of
                  (Inl e, pc2) \<Rightarrow> (Inl e, h1, pc2)
                | (Inr raw_project_deps, pc2) \<Rightarrow>
                    (case override_stages pc2 platform (stage_dicts h1 (fd_stages platform_def)) of
                       (res, stages') \<Rightarrow>
                         (let h2 = h1\<lparr>stage_dicts :=
                                     (stage_dicts h1)(fd_stages platform_def := stages')\<rparr> in
                          case res of
                            Inl e \<Rightarrow> (Inl e, h2, pc2)
                          | Inr _ \<Rightarrow>
                              (Inr \<lparr>fc_platform = platform, fc_r_env = r,
                                    dependencies_explicit = resolve_paths (envs h1 r) raw_project_deps,
                                    fc_stages = fd_stages platform_def\<rparr>,
                               h2, pc2))))
           | _ \<Rightarrow> (Inl TypeError, h, pc1)))"

text \<open>
  \<^verbatim>\<open>
  def get_r_env(self, stage_name: str) -> ResolutionEnv:
      stage = self.stages[stage_name]
      r_env = copy(self.r_env)
      r_env.add_values(stage.value_overrides)
      return r_env
  \<close>
\<close>

definition get_r_env :: "heap \<Rightarrow> FlowConfig \<Rightarrow> string \<Rightarrow> py_error + dict" where
  "get_r_env h self name =
     (case map_of (stage_dicts h (fc_stages self)) name of
        None \<Rightarrow> Inl KeyError
      | Some stage \<Rightarrow> Inr (add_values (copy_env (envs h (fc_r_env self))) (value_overrides stage)))"

section \<open>Vocabulary of the properties\<close>

text \<open>
  The path at which \<open>get_ov_dict\<close> finds the slot map of a scope, and the slot as an
  operation sees it: \<open>ov_dict_getter(flow, platform, stage).get(name)\<close>.
\<close>

definition ov_path :: "string \<Rightarrow> string option \<Rightarrow> string option \<Rightarrow> string list" where
  "ov_path dname platform stage =
     (if \<not> truthy platform then [dname]
      else if truthy stage then [the platform, the stage, dname]
      else [the platform, dname])"

definition read_slot ::
  "(json \<Rightarrow> string option \<Rightarrow> string option \<Rightarrow> (py_error + string list) \<times> json) \<Rightarrow>
   json \<Rightarrow> string option \<Rightarrow> string option \<Rightarrow> string \<Rightarrow> py_error + json" where
  "read_slot ov_dict_getter flow platform stage name =
     (case ov_dict_getter flow platform stage of
        (Inl e, _) \<Rightarrow> Inl e
      | (Inr d, flow1) \<Rightarrow>
          (case deref flow1 d of
             Some (JDict kvs) \<Rightarrow> Inr (py_get kvs name)
           | _ \<Rightarrow> Inl AttributeError))"

text \<open>
  A document as \<open>json_load\<close> builds it: the keys of every dictionary are distinct.
\<close>

fun wf_json :: "json \<Rightarrow> bool" where
  "wf_json (JDict kvs) = (distinct (map fst kvs) \<and> (\<forall>v \<in> set (map snd kvs). wf_json v))"
| "wf_json (JList xs) = (\<forall>x \<in> set xs. wf_json x)"
| "wf_json _ = True"

text \<open>
  A dictionary as a map from names: what \<open>d.get(name)\<close> finds for a string.
\<close>

definition lookup :: "dict \<Rightarrow> string \<rightharpoonup> json" where
  "lookup d name = map_of d (KStr name)"

text \<open>
  The name-to-list map that a scope holds for a slot kind; empty when the scope has none.
  \<open>has_slot_map\<close> says that the scope is a dictionary and that what it holds for the slot
  kind is a dictionary or nothing, as in the documents of the data model.
\<close>

definition slot_map :: "string \<Rightarrow> json \<Rightarrow> string \<rightharpoonup> json" where
  "slot_map dict_name scope =
     (case attr_get scope dict_name of Inr (JDict kvs) \<Rightarrow> lookup kvs | _ \<Rightarrow> Map.empty)"

definition has_slot_map :: "string \<Rightarrow> json \<Rightarrow> bool" where
  "has_slot_map dict_name scope =
     (case attr_get scope dict_name of
        Inr JNull \<Rightarrow> True
      | Inr (JDict kvs) \<Rightarrow> True
      | _ \<Rightarrow> False)"

text \<open>
  An example document: global values \<open>X = [1, 2]\<close> and \<open>Z = [9]\<close>, the platform
  \<open>xc7\<close> with \<open>X = [3]\<close>, and its stage \<open>synth\<close> with \<open>Z = []\<close>.
\<close>

definition example_flow :: json where
  "example_flow = JDict
     [(KStr ''values'',
       JDict [(KStr ''X'', JList [JNum 1, JNum 2]), (KStr ''Z'', JList [JNum 9])]),
      (KStr ''xc7'',
       JDict [(KStr ''values'', JDict [(KStr ''X'', JList [JNum 3])]),
              (KStr ''synth'', JDict [(KStr ''values'', JDict [(KStr ''Z'', JList [])])])])]"

text \<open>
  An example flow: the base environment of the flow definition holds \<open>Y = 1\<close> and
  \<open>Z = 9\<close> and its only stage \<open>synth\<close> declares no overrides; the project gives the
  platform \<open>xc7\<close> the values \<open>Y = 2\<close> and \<open>W = 5\<close> and its stage \<open>synth\<close> the value
  \<open>Y = 3\<close>.
\<close>

definition example_heap :: heap where
  "example_heap =
     \<lparr>envs = (\<lambda>_. [(KStr ''Y'', JNum 1), (KStr ''Z'', JNum 9)]),
      stage_dicts = (\<lambda>_. [(''synth'', \<lparr>stage_name = ''synth'', value_overrides = []\<rparr>)])\<rparr>"

definition example_project :: ProjectFlowConfig where
  "example_project =
     \<lparr>flow_cfg = JDict
        [(KStr ''xc7'',
          JDict [(KStr ''values'', JDict [(KStr ''Y'', JNum 2), (KStr ''W'', JNum 5)]),
                 (KStr ''synth'', JDict [(KStr ''values'', JDict [(KStr ''Y'', JNum 3)])])])],
      path = ''flow.json''\<rparr>"

definition example_definition :: FlowDefinition where
  "example_definition = \<lparr>fd_r_env = 0, fd_stages = 0\<rparr>"

section \<open>Paths into the document\<close>

lemmas store_defs =
  read_slot_def get_ov_dict_def get_lazy_dict_def subscript_def py_get_def attr_get_def

lemma deref_snoc:
  "deref flow (p @ [k]) =
     (case deref flow p of Some (JDict kvs) \<Rightarrow> map_of kvs (KStr k) | _ \<Rightarrow> None)"
proof (induction flow p rule: deref.induct)
  case (1 j)
  then show ?case by (cases j) (auto split: option.splits)
qed (auto split: option.splits)

lemma deref_assign_parent:
  "deref flow p = Some (JDict kvs) \<Longrightarrow>
   deref (assign flow (p @ [k]) v) p = Some (JDict (AList.update (KStr k) v kvs))"
proof (induction flow p rule: deref.induct)
  case (1 j)
  then show ?case by simp
next
  case (2 kvs0 a ks)
  then show ?case
    by (auto simp: update_conv' py_get_def split: option.splits)
qed auto

lemma get_lazy_dict_present:
  "deref flow (parent @ [name]) = Some (JDict kvs) \<Longrightarrow>
   get_lazy_dict flow parent name = (Inr (parent @ [name]), flow)"
  by (auto simp: get_lazy_dict_def deref_snoc py_get_def split: option.splits json.splits)

lemma deref_assign_same:
  "deref flow p = Some (JDict kvs) \<Longrightarrow> deref (assign flow (p @ [k]) v) (p @ [k]) = Some v"
  by (simp add: deref_snoc [of _ p k] deref_assign_parent update_conv')

lemma get_lazy_dict_result:
  assumes "get_lazy_dict flow parent name = (Inr d, flow1)"
  shows "d = parent @ [name] \<and>
   (\<exists>kvs. deref flow parent = Some (JDict kvs) \<and>
      (if py_get kvs name = JNull
       then flow1 = assign flow (parent @ [name]) (JDict []) \<and> deref flow1 d = Some (JDict [])
       else flow1 = flow \<and> deref flow1 d = Some (py_get kvs name)))"
proof -
  from assms obtain kvs where k: "deref flow parent = Some (JDict kvs)"
    by (auto simp: get_lazy_dict_def split: option.splits json.splits)
  show ?thesis
  proof (cases "py_get kvs name = JNull")
    case True
    with assms k show ?thesis
      by (auto simp: get_lazy_dict_def deref_assign_same)
  next
    case False
    with assms k show ?thesis
      by (auto simp: get_lazy_dict_def deref_snoc py_get_def split: option.splits)
  qed
qed

lemma get_lazy_dict_error:
  "get_lazy_dict flow parent name = (Inl e, flow1) \<Longrightarrow> flow1 = flow"
  by (auto simp: get_lazy_dict_def split: option.splits json.splits if_splits)

lemma get_ov_dict_path:
  assumes "get_ov_dict dname flow platform stage = (Inr d, flow1)"
  shows "d = ov_path dname platform stage"
  using assms
  by (auto simp: get_ov_dict_def ov_path_def split: if_splits sum.splits prod.splits
      dest!: get_lazy_dict_result)

lemma get_ov_dict_present:
  assumes "deref flow (ov_path dname platform stage) = Some (JDict kvs)"
  shows "get_ov_dict dname flow platform stage = (Inr (ov_path dname platform stage), flow)"
proof (cases "truthy platform")
  case False
  with assms show ?thesis
    using get_lazy_dict_present [of flow "[]" dname kvs]
    by (simp add: get_ov_dict_def ov_path_def)
next
  case True
  then obtain p where p: "platform = Some p" "p \<noteq> []" by (cases platform) auto
  show ?thesis
  proof (cases "truthy stage")
    case False
    with assms p have d: "deref flow ([p] @ [dname]) = Some (JDict kvs)"
      by (simp add: ov_path_def)
    then have "subscript flow p \<noteq> Inl KeyError \<and> subscript flow p \<noteq> Inl TypeError"
      by (cases flow) (auto simp: subscript_def split: option.splits)
    with d False p show ?thesis
      using get_lazy_dict_present [OF d]
      by (auto simp: get_ov_dict_def ov_path_def subscript_def split: sum.splits json.splits option.splits)
  next
    case True
    then obtain s where s: "stage = Some s" "s \<noteq> []" by (cases stage) auto
    with assms p have d: "deref flow ([p, s] @ [dname]) = Some (JDict kvs)"
      by (simp add: ov_path_def)
    then obtain skvs where sd: "deref flow ([p] @ [s]) = Some (JDict skvs)"
      unfolding deref_snoc [of flow "[p, s]" dname]
      by (auto split: option.splits json.splits)
    from sd have sub: "\<exists>c. subscript flow p = Inr c"
      by (cases flow) (auto simp: subscript_def split: option.splits)
    show ?thesis
      using get_lazy_dict_present [OF d] get_lazy_dict_present [OF sd] sub p s
      by (auto simp: get_ov_dict_def ov_path_def)
  qed
qed

section \<open>Append\<close>

lemma read_slot_result:
  assumes "read_slot (get_ov_dict dname) flow platform stage name = Inr slot"
  obtains flow1 kvs where
    "get_ov_dict dname flow platform stage = (Inr (ov_path dname platform stage), flow1)"
    "deref flow1 (ov_path dname platform stage) = Some (JDict kvs)"
    "py_get kvs name = slot"
proof -
  from assms obtain d flow1 kvs where
    g: "get_ov_dict dname flow platform stage = (Inr d, flow1)"
    and d: "deref flow1 d = Some (JDict kvs)" and s: "py_get kvs name = slot"
    by (auto simp: read_slot_def split: prod.splits sum.splits option.splits json.splits)
  from get_ov_dict_path [OF g] g d s that show thesis by simp
qed

lemma read_slot_after_assign:
  assumes "deref flow1 (ov_path dname platform stage) = Some (JDict kvs)"
  shows "read_slot (get_ov_dict dname) (assign flow1 (ov_path dname platform stage @ [name]) v)
           platform stage name = Inr v"
  using get_ov_dict_present [OF deref_assign_parent [OF assms, of name v]]
        deref_assign_parent [OF assms, of name v]
  by (simp add: read_slot_def py_get_def update_conv')


lemma get_ov_dict_nonempty:
  assumes g: "get_ov_dict dname flow platform stage = (Inr d, flow1)"
    and d: "deref flow1 d = Some (JDict kvs)" and ne: "kvs \<noteq> []"
  shows "flow1 = flow"
proof -
  have one: "f1 = f" if "get_lazy_dict f parent k = (Inr d, f1)" "deref f1 d = Some (JDict kvs)"
    for f f1 parent k
    using get_lazy_dict_result [OF that(1)] that(2) ne
    by (auto split: if_splits)
  show ?thesis
  proof (cases "truthy platform \<and> truthy stage")
    case False
    with g d show ?thesis
      by (auto simp: get_ov_dict_def split: if_splits sum.splits intro: one)
  next
    case True
    with g obtain sd f1 where
      a: "get_lazy_dict flow [the platform] (the stage) = (Inr sd, f1)"
      and b: "get_lazy_dict f1 sd dname = (Inr d, flow1)"
      by (auto simp: get_ov_dict_def split: sum.splits prod.splits)
    from one [OF b d] have e: "flow1 = f1" .
    from get_lazy_dict_result [OF b] d ne e obtain skvs where
      sk: "deref f1 sd = Some (JDict skvs)" "py_get skvs dname \<noteq> JNull"
      by (auto split: if_splits)
    then have "skvs \<noteq> []" by (auto simp: py_get_def)
    with get_lazy_dict_result [OF a] sk have "f1 = flow"
      by (auto split: if_splits)
    with e show ?thesis by simp
  qed
qed

lemma add_ov_unset:
  assumes "read_slot (get_ov_dict dname) flow platform stage name = Inr JNull"
  shows "\<exists>flow2. add_ov (get_ov_dict dname) failstr flow name vals platform stage =
            (Inr True, [], flow2) \<and>
           read_slot (get_ov_dict dname) flow2 platform stage name = Inr (JList vals)"
proof -
  from assms obtain flow1 kvs where
    g: "get_ov_dict dname flow platform stage = (Inr (ov_path dname platform stage), flow1)"
    and d: "deref flow1 (ov_path dname platform stage) = Some (JDict kvs)"
    and s: "py_get kvs name = JNull"
    by (rule read_slot_result)
  have "add_ov (get_ov_dict dname) failstr flow name vals platform stage =
          (Inr True, [], assign flow1 (ov_path dname platform stage @ [name]) (JList vals))"
    by (simp add: add_ov_def g d s)
  with read_slot_after_assign [OF d] show ?thesis by simp
qed

lemma add_ov_list:
  assumes "read_slot (get_ov_dict dname) flow platform stage name = Inr (JList deps)"
  shows "\<exists>flow2. add_ov (get_ov_dict dname) failstr flow name vals platform stage =
            (Inr True, [], flow2) \<and>
           read_slot (get_ov_dict dname) flow2 platform stage name = Inr (JList (deps @ vals))"
proof -
  from assms obtain flow1 kvs where
    g: "get_ov_dict dname flow platform stage = (Inr (ov_path dname platform stage), flow1)"
    and d: "deref flow1 (ov_path dname platform stage) = Some (JDict kvs)"
    and s: "py_get kvs name = JList deps"
    by (rule read_slot_result)
  have "add_ov (get_ov_dict dname) failstr flow name vals platform stage =
          (Inr True, [], assign flow1 (ov_path dname platform stage @ [name]) (JList (deps @ vals)))"
    by (simp add: add_ov_def g d s)
  with read_slot_after_assign [OF d] show ?thesis by simp
qed

lemma add_ov_not_a_list:
  assumes "read_slot (get_ov_dict dname) flow platform stage name = Inr slot"
    and "slot \<noteq> JNull" and "\<forall>deps. slot \<noteq> JList deps"
  shows "add_ov (get_ov_dict dname) failstr flow name vals platform stage =
           (Inr False, [failstr name], flow)"
proof -
  from assms(1) obtain flow1 kvs where
    g: "get_ov_dict dname flow platform stage = (Inr (ov_path dname platform stage), flow1)"
    and d: "deref flow1 (ov_path dname platform stage) = Some (JDict kvs)"
    and s: "py_get kvs name = slot"
    by (rule read_slot_result)
  from s assms(2) have "kvs \<noteq> []" by (auto simp: py_get_def)
  from get_ov_dict_nonempty [OF g d this] have "flow1 = flow" .
  with g d have g': "get_ov_dict dname flow platform stage = (Inr (ov_path dname platform stage), flow)"
    and d': "deref flow (ov_path dname platform stage) = Some (JDict kvs)"
    by simp_all
  from assms(2,3) show ?thesis
    by (cases slot) (simp_all add: add_ov_def g' d' s)
qed

text \<open>
  C5. Append, for a scope whose slot map can be reached: on an unset slot it sets the slot
  to the given values; on a slot holding a list it appends the given values at the end,
  in order; on a slot holding anything else it prints the failure message, returns
  \<open>False\<close> and leaves the document as it was. Appending to an unset slot and then
  appending again leaves the concatenation of both value lists, in call order.
\<close>

theorem add_ov_append:
  assumes "read_slot (get_ov_dict dname) flow platform stage name = Inr slot"
  shows "(slot = JNull \<longrightarrow>
            (\<exists>flow2. add_ov (get_ov_dict dname) failstr flow name vals platform stage =
                       (Inr True, [], flow2) \<and>
                     read_slot (get_ov_dict dname) flow2 platform stage name = Inr (JList vals))) \<and>
         (\<forall>deps. slot = JList deps \<longrightarrow>
            (\<exists>flow2. add_ov (get_ov_dict dname) failstr flow name vals platform stage =
                       (Inr True, [], flow2) \<and>
                     read_slot (get_ov_dict dname) flow2 platform stage name =
                       Inr (JList (deps @ vals)))) \<and>
         (slot \<noteq> JNull \<and> (\<forall>deps. slot \<noteq> JList deps) \<longrightarrow>
            add_ov (get_ov_dict dname) failstr flow name vals platform stage =
              (Inr False, [failstr name], flow)) \<and>
         (slot = JNull \<longrightarrow>
            (\<exists>flow2 flow3.
               add_ov (get_ov_dict dname) failstr flow name vals platform stage =
                 (Inr True, [], flow2) \<and>
               add_ov (get_ov_dict dname) failstr flow2 name vals' platform stage =
                 (Inr True, [], flow3) \<and>
               read_slot (get_ov_dict dname) flow3 platform stage name =
                 Inr (JList (vals @ vals'))))"
proof (intro conjI impI allI)
  assume "slot = JNull"
  with assms show "\<exists>flow2. add_ov (get_ov_dict dname) failstr flow name vals platform stage =
                       (Inr True, [], flow2) \<and>
                     read_slot (get_ov_dict dname) flow2 platform stage name = Inr (JList vals)"
    by (simp add: add_ov_unset)
next
  fix deps assume "slot = JList deps"
  with assms show "\<exists>flow2. add_ov (get_ov_dict dname) failstr flow name vals platform stage =
                       (Inr True, [], flow2) \<and>
                     read_slot (get_ov_dict dname) flow2 platform stage name =
                       Inr (JList (deps @ vals))"
    by (simp add: add_ov_list)
next
  assume "slot \<noteq> JNull \<and> (\<forall>deps. slot \<noteq> JList deps)"
  with assms show "add_ov (get_ov_dict dname) failstr flow name vals platform stage =
              (Inr False, [failstr name], flow)"
    by (simp add: add_ov_not_a_list)
next
  assume n: "slot = JNull"
  with assms obtain flow2 where
    a: "add_ov (get_ov_dict dname) failstr flow name vals platform stage = (Inr True, [], flow2)"
    and r: "read_slot (get_ov_dict dname) flow2 platform stage name = Inr (JList vals)"
    using add_ov_unset [of dname flow platform stage name failstr vals] by auto
  from add_ov_list [OF r, of failstr vals'] a
  show "\<exists>flow2 flow3.
               add_ov (get_ov_dict dname) failstr flow name vals platform stage =
                 (Inr True, [], flow2) \<and>
               add_ov (get_ov_dict dname) failstr flow2 name vals' platform stage =
                 (Inr True, [], flow3) \<and>
               read_slot (get_ov_dict dname) flow3 platform stage name =
                 Inr (JList (vals @ vals'))"
    by auto
qed

theorem add_ov_append_witness:
  "read_slot (get_ov_dict ''values'') (JDict [(KStr ''xc7'', JDict [])]) (Some ''xc7'') (Some ''synth'')
     ''X'' = Inr JNull \<and>
   (\<exists>flow2.
      add_ov (get_ov_dict ''values'') val_notlist_str_constr (JDict [(KStr ''xc7'', JDict [])]) ''X''
        [JStr ''a'', JStr ''b''] (Some ''xc7'') (Some ''synth'') = (Inr True, [], flow2) \<and>
      read_slot (get_ov_dict ''values'') flow2 (Some ''xc7'') (Some ''synth'') ''X'' =
        Inr (JList [JStr ''a'', JStr ''b''])) \<and>
   (\<exists>flow2 flow3.
      add_ov (get_ov_dict ''values'') val_notlist_str_constr (JDict [(KStr ''xc7'', JDict [])]) ''X''
        [JStr ''a'', JStr ''b''] (Some ''xc7'') (Some ''synth'') = (Inr True, [], flow2) \<and>
      add_ov (get_ov_dict ''values'') val_notlist_str_constr flow2 ''X'' [JStr ''a'']
        (Some ''xc7'') (Some ''synth'') = (Inr True, [], flow3) \<and>
      read_slot (get_ov_dict ''values'') flow3 (Some ''xc7'') (Some ''synth'') ''X'' =
        Inr (JList ([JStr ''a'', JStr ''b''] @ [JStr ''a'']))) \<and>
   read_slot (get_ov_dict ''values'') (JDict [(KStr ''values'', JDict [(KStr ''X'', JList [JStr ''a''])])])
     None None ''X'' = Inr (JList [JStr ''a'']) \<and>
   (\<exists>flow2.
      add_ov (get_ov_dict ''values'') val_notlist_str_constr
        (JDict [(KStr ''values'', JDict [(KStr ''X'', JList [JStr ''a''])])]) ''X'' [JStr ''a'']
        None None = (Inr True, [], flow2) \<and>
      read_slot (get_ov_dict ''values'') flow2 None None ''X'' =
        Inr (JList ([JStr ''a''] @ [JStr ''a'']))) \<and>
   read_slot (get_ov_dict ''values'') (JDict [(KStr ''values'', JDict [(KStr ''X'', JStr ''a'')])])
     None None ''X'' = Inr (JStr ''a'') \<and>
   add_ov (get_ov_dict ''values'') val_notlist_str_constr
     (JDict [(KStr ''values'', JDict [(KStr ''X'', JStr ''a'')])]) ''X'' [JStr ''b''] None None =
     (Inr False, [val_notlist_str_constr ''X''], JDict [(KStr ''values'', JDict [(KStr ''X'', JStr ''a'')])])"
proof -
  have h: "read_slot (get_ov_dict ''values'') (JDict [(KStr ''xc7'', JDict [])]) (Some ''xc7'')
             (Some ''synth'') ''X'' = Inr JNull"
    by (simp add: store_defs)
  have l: "read_slot (get_ov_dict ''values'')
             (JDict [(KStr ''values'', JDict [(KStr ''X'', JList [JStr ''a''])])]) None None ''X'' =
           Inr (JList [JStr ''a''])"
    by (simp add: store_defs)
  have n: "read_slot (get_ov_dict ''values'')
             (JDict [(KStr ''values'', JDict [(KStr ''X'', JStr ''a'')])]) None None ''X'' = Inr (JStr ''a'')"
    by (simp add: store_defs)
  have ns: "JStr ''a'' \<noteq> JNull \<and> (\<forall>deps. JStr ''a'' \<noteq> JList deps)"
    by simp
  from add_ov_append [OF h, of val_notlist_str_constr "[JStr ''a'', JStr ''b'']" "[JStr ''a'']"]
  have 0: "\<exists>flow2.
      add_ov (get_ov_dict ''values'') val_notlist_str_constr (JDict [(KStr ''xc7'', JDict [])]) ''X''
        [JStr ''a'', JStr ''b''] (Some ''xc7'') (Some ''synth'') = (Inr True, [], flow2) \<and>
      read_slot (get_ov_dict ''values'') flow2 (Some ''xc7'') (Some ''synth'') ''X'' =
        Inr (JList [JStr ''a'', JStr ''b''])"
    and 1: "\<exists>flow2 flow3.
      add_ov (get_ov_dict ''values'') val_notlist_str_constr (JDict [(KStr ''xc7'', JDict [])]) ''X''
        [JStr ''a'', JStr ''b''] (Some ''xc7'') (Some ''synth'') = (Inr True, [], flow2) \<and>
      add_ov (get_ov_dict ''values'') val_notlist_str_constr flow2 ''X'' [JStr ''a'']
        (Some ''xc7'') (Some ''synth'') = (Inr True, [], flow3) \<and>
      read_slot (get_ov_dict ''values'') flow3 (Some ''xc7'') (Some ''synth'') ''X'' =
        Inr (JList ([JStr ''a'', JStr ''b''] @ [JStr ''a'']))"
    by blast+
  from add_ov_append [OF l, of val_notlist_str_constr "[JStr ''a'']"]
  have 2: "\<exists>flow2.
      add_ov (get_ov_dict ''values'') val_notlist_str_constr
        (JDict [(KStr ''values'', JDict [(KStr ''X'', JList [JStr ''a''])])]) ''X'' [JStr ''a'']
        None None = (Inr True, [], flow2) \<and>
      read_slot (get_ov_dict ''values'') flow2 None None ''X'' =
        Inr (JList ([JStr ''a''] @ [JStr ''a'']))"
    by blast
  from add_ov_append [OF n, of val_notlist_str_constr "[JStr ''b'']"] ns
  have 3: "add_ov (get_ov_dict ''values'') val_notlist_str_constr
     (JDict [(KStr ''values'', JDict [(KStr ''X'', JStr ''a'')])]) ''X'' [JStr ''b''] None None =
     (Inr False, [val_notlist_str_constr ''X''], JDict [(KStr ''values'', JDict [(KStr ''X'', JStr ''a'')])])"
    by blast
  from h l n 0 1 2 3 show ?thesis by (intro conjI)
qed

section \<open>Scope access\<close>

text \<open>
  C7 as stated does not hold: a lookup that names an existing platform and a stage the
  platform does not have does not fail. It creates the stage, holding the empty override
  subsection.
\<close>

theorem get_ov_dict_absent_stage_counterexample:
  "get_ov_dict ''values'' (JDict [(KStr ''xc7'', JDict [])]) (Some ''xc7'') (Some ''synth'') =
     (Inr [''xc7'', ''synth'', ''values''],
      JDict [(KStr ''xc7'', JDict [(KStr ''synth'', JDict [(KStr ''values'', JDict [])])])])"
  by (simp add: store_defs)

text \<open>
  C7, as the code has it. A lookup naming a platform that is absent from the root raises
  \<open>KeyError\<close> and leaves the document alone. A lookup naming an existing platform and an
  absent stage succeeds and creates the stage as a map that holds the empty override
  subsection. A missing override subsection of a platform or of the root is created
  empty. When the slot map of the scope is there, nothing is created.
\<close>

theorem get_ov_dict_scopes:
  "(p \<noteq> [] \<and> map_of kvs (KStr p) = None \<longrightarrow>
      get_ov_dict dname (JDict kvs) (Some p) stage = (Inl KeyError, JDict kvs)) \<and>
   (p \<noteq> [] \<and> s \<noteq> [] \<and> map_of kvs (KStr p) = Some (JDict pkvs) \<and> map_of pkvs (KStr s) = None \<longrightarrow>
      get_ov_dict dname (JDict kvs) (Some p) (Some s) =
        (Inr [p, s, dname],
         JDict (AList.update (KStr p) (JDict (AList.update (KStr s) (JDict [(KStr dname, JDict [])]) pkvs)) kvs))) \<and>
   (p \<noteq> [] \<and> map_of kvs (KStr p) = Some (JDict pkvs) \<and> py_get pkvs dname = JNull \<longrightarrow>
      get_ov_dict dname (JDict kvs) (Some p) None =
        (Inr [p, dname],
         JDict (AList.update (KStr p) (JDict (AList.update (KStr dname) (JDict []) pkvs)) kvs))) \<and>
   (py_get kvs dname = JNull \<longrightarrow>
      get_ov_dict dname (JDict kvs) None stage =
        (Inr [dname], JDict (AList.update (KStr dname) (JDict []) kvs))) \<and>
   (deref flow (ov_path dname platform stage) = Some (JDict ovs) \<longrightarrow>
      get_ov_dict dname flow platform stage = (Inr (ov_path dname platform stage), flow))"
proof (intro conjI impI)
  assume "p \<noteq> [] \<and> map_of kvs (KStr p) = None"
  then show "get_ov_dict dname (JDict kvs) (Some p) stage = (Inl KeyError, JDict kvs)"
    by (simp add: get_ov_dict_def subscript_def)
next
  assume "p \<noteq> [] \<and> s \<noteq> [] \<and> map_of kvs (KStr p) = Some (JDict pkvs) \<and> map_of pkvs (KStr s) = None"
  then show "get_ov_dict dname (JDict kvs) (Some p) (Some s) =
        (Inr [p, s, dname],
         JDict (AList.update (KStr p) (JDict (AList.update (KStr s) (JDict [(KStr dname, JDict [])]) pkvs)) kvs))"
    by (simp add: store_defs update_conv')
next
  assume "p \<noteq> [] \<and> map_of kvs (KStr p) = Some (JDict pkvs) \<and> py_get pkvs dname = JNull"
  then show "get_ov_dict dname (JDict kvs) (Some p) None =
        (Inr [p, dname],
         JDict (AList.update (KStr p) (JDict (AList.update (KStr dname) (JDict []) pkvs)) kvs))"
    by (simp add: get_ov_dict_def get_lazy_dict_def subscript_def) (simp add: py_get_def)
next
  assume "py_get kvs dname = JNull"
  then show "get_ov_dict dname (JDict kvs) None stage =
        (Inr [dname], JDict (AList.update (KStr dname) (JDict []) kvs))"
    by (simp add: get_ov_dict_def get_lazy_dict_def)
next
  assume "deref flow (ov_path dname platform stage) = Some (JDict ovs)"
  then show "get_ov_dict dname flow platform stage = (Inr (ov_path dname platform stage), flow)"
    by (rule get_ov_dict_present)
qed

theorem get_ov_dict_scopes_witness:
  "get_ov_dict ''values'' (JDict [(KStr ''xc7'', JDict [])]) (Some ''ice40'') (Some ''synth'') =
     (Inl KeyError, JDict [(KStr ''xc7'', JDict [])]) \<and>
   get_ov_dict ''values'' (JDict [(KStr ''xc7'', JDict [])]) (Some ''xc7'') (Some ''synth'') =
     (Inr [''xc7'', ''synth'', ''values''],
      JDict (AList.update (KStr ''xc7'')
        (JDict (AList.update (KStr ''synth'') (JDict [(KStr ''values'', JDict [])]) [])) [(KStr ''xc7'', JDict [])])) \<and>
   get_ov_dict ''values'' (JDict [(KStr ''xc7'', JDict [])]) (Some ''xc7'') None =
     (Inr [''xc7'', ''values''],
      JDict (AList.update (KStr ''xc7'') (JDict (AList.update (KStr ''values'') (JDict []) [])) [(KStr ''xc7'', JDict [])])) \<and>
   get_ov_dict ''values'' (JDict [(KStr ''xc7'', JDict [])]) None None =
     (Inr [''values''], JDict (AList.update (KStr ''values'') (JDict []) [(KStr ''xc7'', JDict [])])) \<and>
   get_ov_dict ''values'' (JDict [(KStr ''values'', JDict [(KStr ''X'', JList [])])]) None None =
     (Inr (ov_path ''values'' None None), JDict [(KStr ''values'', JDict [(KStr ''X'', JList [])])])"
proof -
  have a: "''ice40'' \<noteq> [] \<and> map_of [(KStr ''xc7'', JDict [])] (KStr ''ice40'') = None"
    by simp
  have b: "''xc7'' \<noteq> [] \<and> ''synth'' \<noteq> [] \<and>
           map_of [(KStr ''xc7'', JDict [])] (KStr ''xc7'') = Some (JDict []) \<and> map_of [] (KStr ''synth'') = None"
    by simp
  have c: "''xc7'' \<noteq> [] \<and> map_of [(KStr ''xc7'', JDict [])] (KStr ''xc7'') = Some (JDict []) \<and>
           py_get [] ''values'' = JNull"
    by (simp add: py_get_def)
  have d: "py_get [(KStr ''xc7'', JDict [])] ''values'' = JNull"
    by (simp add: py_get_def)
  have e: "deref (JDict [(KStr ''values'', JDict [(KStr ''X'', JList [])])]) (ov_path ''values'' None None) =
             Some (JDict [(KStr ''X'', JList [])])"
    by (simp add: ov_path_def)
  from a get_ov_dict_scopes [where p = "''ice40''" and kvs = "[(KStr ''xc7'', JDict [])]"
      and dname = "''values''" and stage = "Some ''synth''"]
  have 1: "get_ov_dict ''values'' (JDict [(KStr ''xc7'', JDict [])]) (Some ''ice40'') (Some ''synth'') =
     (Inl KeyError, JDict [(KStr ''xc7'', JDict [])])"
    by blast
  from b c d
    get_ov_dict_scopes [where p = "''xc7''" and kvs = "[(KStr ''xc7'', JDict [])]"
      and dname = "''values''" and stage = None and s = "''synth''" and pkvs = "[]"]
  have 2: "get_ov_dict ''values'' (JDict [(KStr ''xc7'', JDict [])]) (Some ''xc7'') (Some ''synth'') =
     (Inr [''xc7'', ''synth'', ''values''],
      JDict (AList.update (KStr ''xc7'')
        (JDict (AList.update (KStr ''synth'') (JDict [(KStr ''values'', JDict [])]) [])) [(KStr ''xc7'', JDict [])]))"
    and 3: "get_ov_dict ''values'' (JDict [(KStr ''xc7'', JDict [])]) (Some ''xc7'') None =
     (Inr [''xc7'', ''values''],
      JDict (AList.update (KStr ''xc7'') (JDict (AList.update (KStr ''values'') (JDict []) [])) [(KStr ''xc7'', JDict [])]))"
    and 4: "get_ov_dict ''values'' (JDict [(KStr ''xc7'', JDict [])]) None None =
     (Inr [''values''], JDict (AList.update (KStr ''values'') (JDict []) [(KStr ''xc7'', JDict [])]))"
    by blast+
  from e get_ov_dict_scopes [where dname = "''values''"
      and flow = "JDict [(KStr ''values'', JDict [(KStr ''X'', JList [])])]" and platform = None
      and stage = None and ovs = "[(KStr ''X'', JList [])]"]
  have 5: "get_ov_dict ''values'' (JDict [(KStr ''values'', JDict [(KStr ''X'', JList [])])]) None None =
     (Inr (ov_path ''values'' None None), JDict [(KStr ''values'', JDict [(KStr ''X'', JList [])])])"
    by blast
  from 1 2 3 4 5 show ?thesis by blast
qed

section \<open>Removal by index\<close>

lemma nths_cong_below:
  assumes "\<And>n. n < length xs \<Longrightarrow> n \<in> A \<longleftrightarrow> n \<in> B"
  shows "nths xs A = nths xs B"
proof -
  have "filter (\<lambda>p. snd p \<in> A) (zip xs [0..<length xs]) =
        filter (\<lambda>p. snd p \<in> B) (zip xs [0..<length xs])"
    by (rule filter_cong) (auto simp: set_zip assms)
  then show ?thesis by (simp add: nths_def)
qed

lemma nths_without_nth:
  assumes n: "n < length xs" and nA: "n \<notin> A"
    and lo: "\<And>m. m < n \<Longrightarrow> m \<in> A \<longleftrightarrow> m \<in> B"
    and hi: "\<And>m. n \<le> m \<Longrightarrow> Suc m \<in> A \<longleftrightarrow> m \<in> B"
  shows "nths (take n xs @ drop (Suc n) xs) B = nths xs A"
proof -
  have len: "length (take n xs) = n" using n by simp
  have 1: "nths (take n xs) B = nths (take n xs) A"
    by (rule nths_cong_below) (simp add: lo)
  have 2: "nths (drop (Suc n) xs) {j. j + n \<in> B} = nths (drop (Suc n) xs) {j. Suc (j + n) \<in> A}"
    by (rule nths_cong_below) (simp add: hi)
  have "nths xs A = nths (take n xs @ xs ! n # drop (Suc n) xs) A"
    using n by (simp add: id_take_nth_drop [symmetric])
  also have "\<dots> = nths (take n xs) A @ nths (drop (Suc n) xs) {j. Suc (j + n) \<in> A}"
    using nA n by (simp add: nths_append nths_Cons min_absorb2 del: append_take_drop_id)
  finally show ?thesis
    using n by (simp add: nths_append min_absorb2 1 2)
qed

lemma list_pop_in_range:
  "0 \<le> i \<Longrightarrow> i < int (length xs) \<Longrightarrow>
   list_pop xs i = Inr (take (nat i) xs @ drop (Suc (nat i)) xs)"
  by (simp add: list_pop_def)


lemma pop_all_descending:
  assumes "sorted_wrt (>) idcs" and "\<forall>i\<in>set idcs. 0 \<le> i \<and> i < int (length xs)"
  shows "pop_all xs idcs = (Inr (), nths xs {n. int n \<notin> set idcs})"
  using assms
proof (induction idcs arbitrary: xs)
  case Nil
  then show ?case by (simp add: nths_all)
next
  case (Cons i rest)
  let ?n = "nat i"
  let ?xs' = "take ?n xs @ drop (Suc ?n) xs"
  from Cons.prems have i: "0 \<le> i" "i < int (length xs)" by simp_all
  then have n: "?n < length xs" by simp
  from Cons.prems have below: "\<forall>j\<in>set rest. j < i" and desc: "sorted_wrt (>) rest"
    by simp_all
  have range: "\<forall>j\<in>set rest. 0 \<le> j \<and> j < int (length ?xs')"
  proof
    fix j assume j: "j \<in> set rest"
    with Cons.prems below have "0 \<le> j" "j < i" by simp_all
    with i n show "0 \<le> j \<and> j < int (length ?xs')" by simp
  qed
  have "pop_all xs (i # rest) = pop_all ?xs' rest"
    by (simp add: list_pop_in_range i)
  also have "\<dots> = (Inr (), nths ?xs' {m. int m \<notin> set rest})"
    by (rule Cons.IH [OF desc range])
  also have "nths ?xs' {m. int m \<notin> set rest} = nths xs {m. int m \<notin> set (i # rest)}"
  proof (rule nths_without_nth [OF n])
    show "?n \<notin> {m. int m \<notin> set (i # rest)}" using i by simp
  next
    fix m assume "m < ?n"
    then have "int m \<noteq> i" by linarith
    then show "m \<in> {m. int m \<notin> set (i # rest)} \<longleftrightarrow> m \<in> {m. int m \<notin> set rest}"
      by simp
  next
    fix m assume "?n \<le> m"
    with i have "i \<le> int m" by linarith
    with below have "int m \<notin> set rest" "int (Suc m) \<notin> set rest" "int (Suc m) \<noteq> i"
      by auto
    then show "Suc m \<in> {m. int m \<notin> set (i # rest)} \<longleftrightarrow> m \<in> {m. int m \<notin> set rest}"
      by simp
  qed
  finally show ?case .
qed

lemma rev_sort_descending:
  "distinct (idcs :: int list) \<Longrightarrow> sorted_wrt (>) (rev (sort idcs))"
  by (simp add: sorted_wrt_rev strict_sorted_iff)

lemma sorted_le_last:
  "sorted xs \<Longrightarrow> (x :: int) \<in> set xs \<Longrightarrow> x \<le> last xs"
  by (induction xs) auto

lemma sorted_hd_le:
  "sorted xs \<Longrightarrow> (x :: int) \<in> set xs \<Longrightarrow> hd xs \<le> x"
  by (cases xs) auto

lemma hd_rev_sort_upper:
  "(i :: int) \<in> set idcs \<Longrightarrow> i \<le> hd (rev (sort idcs))"
  by (simp add: hd_rev sorted_le_last)

lemma last_rev_sort_lower:
  "(i :: int) \<in> set idcs \<Longrightarrow> last (rev (sort idcs)) \<le> i"
  by (simp add: last_rev sorted_hd_le)

lemma hd_rev_sort_mem:
  "idcs \<noteq> [] \<Longrightarrow> hd (rev (sort idcs)) \<in> set (idcs :: int list)"
  by (metis list.set_sel(1) set_empty set_rev set_sort)

lemma last_rev_sort_mem:
  "idcs \<noteq> [] \<Longrightarrow> last (rev (sort idcs)) \<in> set (idcs :: int list)"
  by (metis last_in_set set_empty set_rev set_sort)

lemma sort_eq_Nil: "sort (idcs :: int list) = [] \<longleftrightarrow> idcs = []"
  by (metis length_0_conv length_sort)

lemma rm_ov_by_idx_empty:
  "rm_ov_by_idx getter notset notlist flow name [] platform stage =
     (Inr False, [''Index list is emtpy!''], flow)"
  by (simp add: rm_ov_by_idx_def)

lemma read_slot_list_unchanged:
  assumes "read_slot (get_ov_dict dname) flow platform stage name = Inr (JList vallist)"
  obtains kvs where
    "get_ov_dict dname flow platform stage = (Inr (ov_path dname platform stage), flow)"
    "deref flow (ov_path dname platform stage) = Some (JDict kvs)"
    "py_get kvs name = JList vallist"
proof -
  from assms obtain flow1 kvs where
    g: "get_ov_dict dname flow platform stage = (Inr (ov_path dname platform stage), flow1)"
    and d: "deref flow1 (ov_path dname platform stage) = Some (JDict kvs)"
    and s: "py_get kvs name = JList vallist"
    by (rule read_slot_result)
  from s have "kvs \<noteq> []" by (auto simp: py_get_def)
  from get_ov_dict_nonempty [OF g d this] g d s that show thesis by simp
qed

lemma rm_ov_by_idx_out_of_range:
  assumes r: "read_slot (get_ov_dict dname) flow platform stage name = Inr (JList vallist)"
    and bad: "\<exists>i\<in>set idcs. i < 0 \<or> int (length vallist) \<le> i"
  shows "rm_ov_by_idx (get_ov_dict dname) notset notlist flow name idcs platform stage =
           (Inr False, [''Index out of range (max: '' @ str_of_nat (length vallist) @ ''!''], flow)"
proof -
  from r obtain kvs where
    g: "get_ov_dict dname flow platform stage = (Inr (ov_path dname platform stage), flow)"
    and d: "deref flow (ov_path dname platform stage) = Some (JDict kvs)"
    and s: "py_get kvs name = JList vallist"
    by (rule read_slot_list_unchanged)
  from bad obtain i where i: "i \<in> set idcs" "i < 0 \<or> int (length vallist) \<le> i" by auto
  then have ne: "idcs \<noteq> []" by auto
  from i hd_rev_sort_upper [OF i(1)] last_rev_sort_lower [OF i(1)]
  have "int (length vallist) \<le> hd (rev (sort idcs)) \<or> last (rev (sort idcs)) < 0"
    by linarith
  with ne show ?thesis
    by (simp add: rm_ov_by_idx_def Let_def sort_eq_Nil g d s)
qed

lemma rm_ov_by_idx_distinct:
  assumes r: "read_slot (get_ov_dict dname) flow platform stage name = Inr (JList vallist)"
    and ne: "idcs \<noteq> []" and dist: "distinct idcs"
    and ok: "\<forall>i\<in>set idcs. 0 \<le> i \<and> i < int (length vallist)"
  shows "\<exists>flow2.
           rm_ov_by_idx (get_ov_dict dname) notset notlist flow name idcs platform stage =
             (Inr True, [], flow2) \<and>
           read_slot (get_ov_dict dname) flow2 platform stage name =
             Inr (JList (nths vallist {n. int n \<notin> set idcs}))"
proof -
  from r obtain kvs where
    g: "get_ov_dict dname flow platform stage = (Inr (ov_path dname platform stage), flow)"
    and d: "deref flow (ov_path dname platform stage) = Some (JDict kvs)"
    and s: "py_get kvs name = JList vallist"
    by (rule read_slot_list_unchanged)
  from ok hd_rev_sort_mem [OF ne] last_rev_sort_mem [OF ne]
  have chk: "\<not> (int (length vallist) \<le> hd (rev (sort idcs)) \<or> last (rev (sort idcs)) < 0)"
    by auto
  from ok have ok': "\<forall>i\<in>set (rev (sort idcs)). 0 \<le> i \<and> i < int (length vallist)"
    by simp
  have pop: "pop_all vallist (rev (sort idcs)) = (Inr (), nths vallist {n. int n \<notin> set idcs})"
    using pop_all_descending [OF rev_sort_descending [OF dist] ok'] by simp
  have "rm_ov_by_idx (get_ov_dict dname) notset notlist flow name idcs platform stage =
          (Inr True, [], assign flow (ov_path dname platform stage @ [name])
             (JList (nths vallist {n. int n \<notin> set idcs})))"
    using ne chk by (simp add: rm_ov_by_idx_def Let_def sort_eq_Nil g d s pop)
  with read_slot_after_assign [OF d] show ?thesis by simp
qed

text \<open>
  C3. Removal by index on a slot that holds a list: an empty index list is refused with
  the message of the empty index list; distinct indices that all lie within
  \<open>[0, len - 1]\<close> remove exactly the positions they name and keep the other elements in
  order; an index outside the range is refused with the out-of-range message and the
  document is unchanged.
\<close>

theorem rm_ov_by_idx_list:
  assumes "read_slot (get_ov_dict dname) flow platform stage name = Inr (JList vallist)"
  shows "rm_ov_by_idx (get_ov_dict dname) notset notlist flow name [] platform stage =
           (Inr False, [''Index list is emtpy!''], flow) \<and>
         (idcs \<noteq> [] \<and> distinct idcs \<and> (\<forall>i\<in>set idcs. 0 \<le> i \<and> i < int (length vallist)) \<longrightarrow>
            (\<exists>flow2.
               rm_ov_by_idx (get_ov_dict dname) notset notlist flow name idcs platform stage =
                 (Inr True, [], flow2) \<and>
               read_slot (get_ov_dict dname) flow2 platform stage name =
                 Inr (JList (nths vallist {n. int n \<notin> set idcs})))) \<and>
         ((\<exists>i\<in>set idcs'. i < 0 \<or> int (length vallist) \<le> i) \<longrightarrow>
            rm_ov_by_idx (get_ov_dict dname) notset notlist flow name idcs' platform stage =
              (Inr False,
               [''Index out of range (max: '' @ str_of_nat (length vallist) @ ''!''], flow))"
proof (intro conjI impI)
  show "rm_ov_by_idx (get_ov_dict dname) notset notlist flow name [] platform stage =
           (Inr False, [''Index list is emtpy!''], flow)"
    by (rule rm_ov_by_idx_empty)
next
  assume "idcs \<noteq> [] \<and> distinct idcs \<and> (\<forall>i\<in>set idcs. 0 \<le> i \<and> i < int (length vallist))"
  with assms show "\<exists>flow2.
               rm_ov_by_idx (get_ov_dict dname) notset notlist flow name idcs platform stage =
                 (Inr True, [], flow2) \<and>
               read_slot (get_ov_dict dname) flow2 platform stage name =
                 Inr (JList (nths vallist {n. int n \<notin> set idcs}))"
    by (intro rm_ov_by_idx_distinct) simp_all
next
  assume "\<exists>i\<in>set idcs'. i < 0 \<or> int (length vallist) \<le> i"
  with assms show "rm_ov_by_idx (get_ov_dict dname) notset notlist flow name idcs' platform stage =
              (Inr False,
               [''Index out of range (max: '' @ str_of_nat (length vallist) @ ''!''], flow)"
    by (rule rm_ov_by_idx_out_of_range)
qed

theorem rm_ov_by_idx_list_witness:
  "read_slot (get_ov_dict ''values'')
     (JDict [(KStr ''values'', JDict [(KStr ''X'', JList [JStr ''a'', JStr ''b'', JStr ''c'', JStr ''d''])])])
     None None ''X'' = Inr (JList [JStr ''a'', JStr ''b'', JStr ''c'', JStr ''d'']) \<and>
   (\<exists>flow2.
      rm_ov_by_idx (get_ov_dict ''values'') val_notset_str_constr val_notlist_str_constr
        (JDict [(KStr ''values'', JDict [(KStr ''X'', JList [JStr ''a'', JStr ''b'', JStr ''c'', JStr ''d''])])])
        ''X'' [0, 2] None None = (Inr True, [], flow2) \<and>
      read_slot (get_ov_dict ''values'') flow2 None None ''X'' = Inr (JList [JStr ''b'', JStr ''d''])) \<and>
   rm_ov_by_idx (get_ov_dict ''values'') val_notset_str_constr val_notlist_str_constr
     (JDict [(KStr ''values'', JDict [(KStr ''X'', JList [JStr ''a'', JStr ''b'', JStr ''c'', JStr ''d''])])])
     ''X'' [1, 4] None None =
     (Inr False, [''Index out of range (max: 4!''],
      JDict [(KStr ''values'', JDict [(KStr ''X'', JList [JStr ''a'', JStr ''b'', JStr ''c'', JStr ''d''])])])"
proof -
  let ?doc = "JDict [(KStr ''values'', JDict [(KStr ''X'', JList [JStr ''a'', JStr ''b'', JStr ''c'', JStr ''d''])])]"
  have h: "read_slot (get_ov_dict ''values'') ?doc None None ''X'' =
             Inr (JList [JStr ''a'', JStr ''b'', JStr ''c'', JStr ''d''])"
    by (simp add: store_defs)
  have a: "[0, 2] \<noteq> [] \<and> distinct [0, 2 :: int] \<and>
           (\<forall>i\<in>set [0, 2 :: int]. 0 \<le> i \<and>
              i < int (length [JStr ''a'', JStr ''b'', JStr ''c'', JStr ''d'']))"
    by simp
  have b: "\<exists>i\<in>set [1, 4 :: int]. i < 0 \<or>
             int (length [JStr ''a'', JStr ''b'', JStr ''c'', JStr ''d'']) \<le> i"
    by simp
  have n: "nths [JStr ''a'', JStr ''b'', JStr ''c'', JStr ''d''] {n. int n \<notin> set [0, 2]} =
             [JStr ''b'', JStr ''d'']"
    by (simp add: nths_Cons)
  have s: "str_of_nat (length [JStr ''a'', JStr ''b'', JStr ''c'', JStr ''d'']) = ''4''"
    by code_simp
  from rm_ov_by_idx_list [OF h, where idcs = "[0, 2]" and idcs' = "[1, 4]"
      and notset = val_notset_str_constr and notlist = val_notlist_str_constr] a b
  have "(\<exists>flow2.
      rm_ov_by_idx (get_ov_dict ''values'') val_notset_str_constr val_notlist_str_constr
        ?doc ''X'' [0, 2] None None = (Inr True, [], flow2) \<and>
      read_slot (get_ov_dict ''values'') flow2 None None ''X'' =
        Inr (JList (nths [JStr ''a'', JStr ''b'', JStr ''c'', JStr ''d''] {n. int n \<notin> set [0, 2]})))"
    and "rm_ov_by_idx (get_ov_dict ''values'') val_notset_str_constr val_notlist_str_constr
       ?doc ''X'' [1, 4] None None =
       (Inr False,
        [''Index out of range (max: '' @
           str_of_nat (length [JStr ''a'', JStr ''b'', JStr ''c'', JStr ''d'']) @ ''!''], ?doc)"
    by blast+
  with h show ?thesis unfolding n s by simp
qed

lemmas op_defs =
  remove_values_by_idx_def rm_ov_by_idx_def get_vals_dict_def list_pop_def Let_def

text \<open>
  C4 fails on a repeated index. The range test looks at the largest and the smallest
  index only. With the indices \<open>[0, 0]\<close> on a list of one element the first \<open>pop\<close>
  removes the element and the second raises \<open>IndexError\<close>; with \<open>[1, 1]\<close> on
  \<open>[a, b, c]\<close> the call reports success after removing \<open>b\<close> and \<open>c\<close>, and \<open>c\<close> was
  at a position nobody named.
\<close>

theorem rm_ov_by_idx_repeated_index:
  "remove_values_by_idx (JDict [(KStr ''values'', JDict [(KStr ''X'', JList [JStr ''a''])])])
     ''X'' [0, 0] None None =
     (Inl IndexError, [], JDict [(KStr ''values'', JDict [(KStr ''X'', JList [])])]) \<and>
   remove_values_by_idx
     (JDict [(KStr ''values'', JDict [(KStr ''X'', JList [JStr ''a'', JStr ''b'', JStr ''c''])])])
     ''X'' [1, 1] None None =
     (Inr True, [], JDict [(KStr ''values'', JDict [(KStr ''X'', JList [JStr ''a''])])])"
  by (simp add: op_defs store_defs)

section \<open>Aggregation\<close>

lemmas raw_defs =
  get_ovs_raw_def update_from_def store_vals_def attr_get_def subscript_def py_get_def
  dict_update_def Let_def

lemma py_setitem_KStr: "py_setitem (KStr s) v d = AList.update (KStr s) v d"
proof (induction d)
  case Nil
  then show ?case by simp
next
  case (Cons kv d)
  obtain k' v' where "kv = (k', v')" by (cases kv)
  with Cons show ?case by (cases k') auto
qed

lemma map_of_py_setitem:
  "map_of (py_setitem k v d) (KStr n) = (if k = KStr n then Some v else map_of d (KStr n))"
proof (induction d)
  case Nil
  then show ?case by simp
next
  case (Cons kv d)
  obtain k' v' where kv: "kv = (k', v')" by (cases kv)
  show ?case
  proof (cases "norm_key k' = norm_key k")
    case True
    then have "k' = KStr n \<longleftrightarrow> k = KStr n"
      by (cases k; cases k') (auto split: if_splits)
    with True kv show ?thesis by auto
  next
    case False
    with Cons kv show ?thesis by auto
  qed
qed

lemma keys_py_setitem:
  "fst ` set (py_setitem k v d) = fst ` set d \<or>
   (k \<notin> fst ` set d \<and> map fst (py_setitem k v d) = map fst d @ [k])"
proof (induction d)
  case Nil
  then show ?case by simp
next
  case (Cons kv d)
  obtain k' v' where kv: "kv = (k', v')" by (cases kv)
  show ?case
  proof (cases "norm_key k' = norm_key k")
    case True
    with kv show ?thesis by simp
  next
    case False
    then have "k' \<noteq> k" by auto
    with False Cons kv show ?thesis by auto
  qed
qed

lemma distinct_py_setitem:
  "distinct (map fst d) \<Longrightarrow> distinct (map fst (py_setitem k v d))"
proof (induction d)
  case Nil
  then show ?case by simp
next
  case (Cons kv d)
  obtain k' v' where kv: "kv = (k', v')" by (cases kv)
  show ?case
  proof (cases "norm_key k' = norm_key k")
    case True
    with Cons.prems kv show ?thesis by simp
  next
    case False
    then have ne: "k' \<noteq> k" by auto
    from Cons.prems kv have "k' \<notin> fst ` set d" by auto
    with keys_py_setitem [of k v d] ne have "k' \<notin> fst ` set (py_setitem k v d)"
      by (metis (no_types, lifting) Un_iff insert_iff list.set(1,2) list.set_map set_append
          empty_iff)
    with Cons False kv show ?thesis by auto
  qed
qed

lemma in_py_setitem_cases:
  "(k', v') \<in> set (py_setitem k v d) \<Longrightarrow> v' = v \<or> (k', v') \<in> set d"
  by (induction d) (auto split: if_splits)

lemma wf_json_py_setitem:
  assumes "wf_json (JDict d)" and "wf_json v"
  shows "wf_json (JDict (py_setitem k v d))"
  using assms by (auto simp: distinct_py_setitem dest!: in_py_setitem_cases)

lemma wf_json_dict_update:
  assumes "wf_json (JDict a)" and "wf_json (JDict b)"
  shows "wf_json (JDict (dict_update a b))"
  using assms
proof (induction b arbitrary: a)
  case Nil
  then show ?case by (simp add: dict_update_def)
next
  case (Cons kv b)
  obtain k v where kv: "kv = (k, v)" by (cases kv)
  have step: "dict_update a (kv # b) = dict_update (py_setitem k v a) b"
    by (simp add: dict_update_def kv)
  from Cons.prems kv have "wf_json (JDict (py_setitem k v a))"
    by (intro wf_json_py_setitem) simp_all
  moreover from Cons.prems have "wf_json (JDict b)" by simp
  ultimately show ?case unfolding step by (rule Cons.IH)
qed

lemma lookup_dict_update:
  "distinct (map fst b) \<Longrightarrow> lookup (dict_update a b) = lookup a ++ lookup b"
proof (induction b arbitrary: a)
  case Nil
  then show ?case by (simp add: dict_update_def lookup_def fun_eq_iff map_add_def)
next
  case (Cons kv b)
  obtain k v where kv: "kv = (k, v)" by (cases kv)
  with Cons.prems have k: "map_of b k = None" and d: "distinct (map fst b)"
    by (auto simp: map_of_eq_None_iff)
  have "dict_update a (kv # b) = dict_update (py_setitem k v a) b"
    by (simp add: dict_update_def kv)
  with Cons.IH [OF d, of "py_setitem k v a"] k show ?case
    by (auto simp: kv lookup_def map_of_py_setitem fun_eq_iff map_add_def split: option.splits)
qed

lemma lookup_dict_update_other:
  "lookup b n = None \<Longrightarrow> lookup (dict_update a b) n = lookup a n"
  unfolding dict_update_def lookup_def
  by (induction b arbitrary: a) (auto simp: map_of_py_setitem split: if_splits)


lemma wf_json_subscript:
  "wf_json obj \<Longrightarrow> subscript obj key = Inr v \<Longrightarrow> wf_json v"
  by (cases obj) (auto simp: subscript_def split: option.splits dest!: map_of_SomeD)

lemma wf_json_attr_get:
  "wf_json obj \<Longrightarrow> attr_get obj name = Inr v \<Longrightarrow> wf_json v"
  by (cases obj) (auto simp: attr_get_def py_get_def split: option.splits dest!: map_of_SomeD)

lemma wf_json_json_of_key: "wf_json (json_of_key k)"
  by (cases k) simp_all

lemma pair_of_wf:
  "pair_of item = Inr (k, v) \<Longrightarrow> wf_json item \<Longrightarrow> wf_json v"
  by (induction item rule: pair_of.induct) (auto simp: wf_json_json_of_key)

lemma merge_pairs_wf:
  assumes "wf_json (JDict a)" and "\<forall>x\<in>set items. wf_json x"
  shows "wf_json (JDict (snd (merge_pairs a items)))"
  using assms
proof (induction a items rule: merge_pairs.induct)
  case (1 a)
  then show ?case by simp
next
  case (2 a item items)
  show ?case
  proof (cases "pair_of item")
    case (Inl e)
    with 2 show ?thesis by simp
  next
    case (Inr kv)
    obtain k v where kv: "kv = (k, v)" by (cases kv)
    show ?thesis
    proof (cases "key_of k")
      case None
      with 2 Inr kv show ?thesis by simp
    next
      case (Some k')
      from pair_of_wf [of item k v] Inr kv 2(3) have "wf_json v" by simp
      with 2(2) have "wf_json (JDict (py_setitem k' v a))"
        by (intro wf_json_py_setitem)
      with 2(1) [OF Inr kv [symmetric] Some] 2(3) Inr kv Some show ?thesis by simp
    qed
  qed
qed

lemma update_dict_wf:
  assumes "wf_json (JDict a)" and "wf_json other"
  shows "wf_json (JDict (snd (update_dict a other)))"
proof (cases other)
  case (JDict b)
  with assms show ?thesis by (simp add: wf_json_dict_update del: wf_json.simps)
next
  case (JList items)
  with assms merge_pairs_wf [of a items] show ?thesis by simp
next
  case (JStr s)
  with assms merge_pairs_wf [of a "map (\<lambda>c. JStr [c]) s"] show ?thesis by simp
qed (use assms in simp_all)


lemma in_update_cases:
  "(k', v') \<in> set (AList.update k v al) \<Longrightarrow> v' = v \<or> (k', v') \<in> set al"
  by (induction al) (auto split: if_splits)

lemma wf_json_update:
  assumes "wf_json (JDict al)" and "wf_json v"
  shows "wf_json (JDict (AList.update k v al))"
  using assms by (auto simp: distinct_update dest!: in_update_cases)

lemma wf_json_store_vals:
  "wf_json flow \<Longrightarrow> wf_json v \<Longrightarrow> wf_json (store_vals dict_name g flow v)"
  by (cases flow) (auto simp: store_vals_def intro: wf_json_update simp del: wf_json.simps)

lemma py_update_wf:
  assumes "wf_json vals" and "wf_json other"
  shows "wf_json (snd (py_update vals other))"
proof (cases vals)
  case (JDict a)
  with assms update_dict_wf [of a other] show ?thesis
    by (simp add: case_prod_beta del: wf_json.simps)
qed (use assms in simp_all)

lemma update_from_wf:
  assumes "update_from dict_name g flow vals scope = (r, flow1)"
    and "wf_json flow" "wf_json vals" "wf_json scope"
  shows "wf_json flow1 \<and> (\<forall>v. r = Inr v \<longrightarrow> wf_json v)"
proof (cases "attr_get scope dict_name")
  case (Inl e)
  with assms show ?thesis by (auto simp: update_from_def)
next
  case (Inr ovs)
  with assms(4) have wo: "wf_json ovs" by (rule wf_json_attr_get)
  show ?thesis
  proof (cases "ovs = JNull")
    case True
    with assms Inr show ?thesis by (auto simp: update_from_def)
  next
    case False
    obtain r' vals' where u: "py_update vals ovs = (r', vals')"
      by (cases "py_update vals ovs")
    with py_update_wf [OF assms(3) wo] have "wf_json vals'" by simp
    with assms Inr False u show ?thesis
      by (cases r') (auto simp: update_from_def wf_json_store_vals simp del: wf_json.simps)
  qed
qed

lemma get_ovs_raw_wf:
  assumes run: "get_ovs_raw dict_name flow platform stage = (r, flow')" and wf: "wf_json flow"
  shows "wf_json flow' \<and> (\<forall>v. r = Inr v \<longrightarrow> wf_json v)"
proof (cases "attr_get flow dict_name")
  case (Inl e)
  with run wf show ?thesis by (auto simp: get_ovs_raw_def)
next
  case (Inr g)
  let ?vals = "if g = JNull then JDict [] else g"
  from wf_json_attr_get [OF wf Inr] have wv: "wf_json ?vals" by simp
  show ?thesis
  proof (cases platform)
    case None
    with run wf Inr wv show ?thesis by (auto simp: get_ovs_raw_def Let_def)
  next
    case (Some p)
    show ?thesis
    proof (cases "subscript flow p")
      case (Inl e)
      with run wf Inr Some show ?thesis by (auto simp: get_ovs_raw_def Let_def)
    next
      case pd: (Inr pd)
      obtain r1 flow1 where u1: "update_from dict_name g flow ?vals pd = (r1, flow1)"
        by (cases "update_from dict_name g flow ?vals pd")
      from update_from_wf [OF u1 wf wv wf_json_subscript [OF wf pd]]
      have w1: "wf_json flow1" "\<And>v. r1 = Inr v \<Longrightarrow> wf_json v" by auto
      show ?thesis
      proof (cases r1)
        case (Inl e)
        with run Inr Some pd u1 w1 show ?thesis by (auto simp: get_ovs_raw_def Let_def)
      next
        case v1: (Inr vals1)
        show ?thesis
        proof (cases stage)
          case None
          with run Inr Some pd u1 w1 v1 show ?thesis by (auto simp: get_ovs_raw_def Let_def)
        next
          case s: (Some s)
          show ?thesis
          proof (cases "subscript flow1 p")
            case (Inl e)
            with run Inr Some pd u1 w1 v1 s show ?thesis by (auto simp: get_ovs_raw_def Let_def)
          next
            case pd1: (Inr pd1)
            show ?thesis
            proof (cases "subscript pd1 s")
              case (Inl e)
              with run Inr Some pd u1 w1 v1 s pd1 show ?thesis
                by (auto simp: get_ovs_raw_def Let_def)
            next
              case sd: (Inr sd)
              have wsd: "wf_json sd"
                by (rule wf_json_subscript [OF wf_json_subscript [OF w1(1) pd1] sd])
              from run Inr Some pd u1 v1 s pd1 sd
              have "update_from dict_name g flow1 vals1 sd = (r, flow')"
                by (simp add: get_ovs_raw_def Let_def)
              from update_from_wf [OF this w1(1) w1(2) [OF v1] wsd] show ?thesis .
            qed
          qed
        qed
      qed
    qed
  qed
qed

lemma global_vals_map:
  assumes "has_slot_map dict_name flow"
  obtains g a where "attr_get flow dict_name = Inr g"
    "(if g = JNull then JDict [] else g) = JDict a" "lookup a = slot_map dict_name flow"
proof (cases "attr_get flow dict_name")
  case (Inl e)
  with assms show ?thesis by (simp add: has_slot_map_def)
next
  case (Inr g)
  with assms that show ?thesis
    by (cases g) (auto simp: has_slot_map_def slot_map_def lookup_def fun_eq_iff)
qed

lemma update_from_slot_map:
  assumes ok: "has_slot_map dict_name scope" and wf: "wf_json scope"
  shows "\<exists>m flow1. update_from dict_name g flow (JDict a) scope = (Inr (JDict m), flow1) \<and>
           lookup m = lookup a ++ slot_map dict_name scope \<and>
           (flow1 = flow \<or> flow1 = store_vals dict_name g flow (JDict m))"
proof (cases "attr_get scope dict_name")
  case (Inl e)
  with ok show ?thesis by (simp add: has_slot_map_def)
next
  case (Inr ovs)
  show ?thesis
  proof (cases ovs)
    case JNull
    with Inr show ?thesis by (simp add: update_from_def slot_map_def)
  next
    case (JDict b)
    with wf_json_attr_get [OF wf Inr] have "distinct (map fst b)" by simp
    with Inr JDict show ?thesis
      by (simp add: update_from_def slot_map_def lookup_dict_update)
  next
    case (JBool x)
    with ok Inr show ?thesis by (simp add: has_slot_map_def)
  next
    case (JNum x)
    with ok Inr show ?thesis by (simp add: has_slot_map_def)
  next
    case (JStr x)
    with ok Inr show ?thesis by (simp add: has_slot_map_def)
  next
    case (JList x)
    with ok Inr show ?thesis by (simp add: has_slot_map_def)
  qed
qed

lemma subscript_store_vals:
  "p \<noteq> dict_name \<Longrightarrow> subscript (store_vals dict_name g flow v) p = subscript flow p"
  by (cases flow) (auto simp: store_vals_def subscript_def update_conv')

text \<open>
  C1. For a document with distinct keys whose scopes hold a dictionary or nothing for the
  slot kind, aggregation returns a name-to-list map, and the map is the global map
  (empty when the document has none), overridden name by name by the platform's map when
  a platform is given, and overridden once more by the stage's map when a stage is given
  too: a name that the more specific scope holds takes that scope's whole list, and the
  lists are never concatenated.
\<close>

theorem get_ovs_raw_replaces:
  assumes wf: "wf_json flow" and ok: "has_slot_map dict_name flow"
  shows "(\<exists>m. get_ovs_raw dict_name flow None stage = (Inr (JDict m), flow) \<and>
            lookup m = slot_map dict_name flow) \<and>
         (\<forall>p pd. subscript flow p = Inr pd \<and> has_slot_map dict_name pd \<longrightarrow>
            (\<exists>m flow'. get_ovs_raw dict_name flow (Some p) None = (Inr (JDict m), flow') \<and>
               lookup m = slot_map dict_name flow ++ slot_map dict_name pd)) \<and>
         (\<forall>p s pd sd. p \<noteq> dict_name \<and> subscript flow p = Inr pd \<and>
              has_slot_map dict_name pd \<and> subscript pd s = Inr sd \<and>
              has_slot_map dict_name sd \<longrightarrow>
            (\<exists>m flow'. get_ovs_raw dict_name flow (Some p) (Some s) = (Inr (JDict m), flow') \<and>
               lookup m =
                 slot_map dict_name flow ++ slot_map dict_name pd ++ slot_map dict_name sd))"
proof -
  from ok obtain g a where g: "attr_get flow dict_name = Inr g"
    and v: "(if g = JNull then JDict [] else g) = JDict a"
    and a: "lookup a = slot_map dict_name flow"
    by (rule global_vals_map)
  have none: "\<exists>m. get_ovs_raw dict_name flow None stage = (Inr (JDict m), flow) \<and>
            lookup m = slot_map dict_name flow"
    using g v a by (simp add: get_ovs_raw_def Let_def)
  have plat: "\<exists>m flow'. get_ovs_raw dict_name flow (Some p) None = (Inr (JDict m), flow') \<and>
               lookup m = slot_map dict_name flow ++ slot_map dict_name pd"
    if pd: "subscript flow p = Inr pd" and okp: "has_slot_map dict_name pd" for p pd
  proof -
    from update_from_slot_map [OF okp wf_json_subscript [OF wf pd], of g flow a]
    obtain m flow1 where
      "update_from dict_name g flow (JDict a) pd = (Inr (JDict m), flow1)"
      "lookup m = lookup a ++ slot_map dict_name pd"
      by blast
    with g v a pd show ?thesis
      by (simp add: get_ovs_raw_def Let_def)
  qed
  have stg: "\<exists>m flow'. get_ovs_raw dict_name flow (Some p) (Some s) = (Inr (JDict m), flow') \<and>
               lookup m =
                 slot_map dict_name flow ++ slot_map dict_name pd ++ slot_map dict_name sd"
    if ne: "p \<noteq> dict_name" and pd: "subscript flow p = Inr pd"
      and okp: "has_slot_map dict_name pd" and sd: "subscript pd s = Inr sd"
      and oks: "has_slot_map dict_name sd" for p s pd sd
  proof -
    have wpd: "wf_json pd" by (rule wf_json_subscript [OF wf pd])
    from update_from_slot_map [OF okp wpd, of g flow a]
    obtain m1 flow1 where
      u1: "update_from dict_name g flow (JDict a) pd = (Inr (JDict m1), flow1)"
      and l1: "lookup m1 = lookup a ++ slot_map dict_name pd"
      and f1: "flow1 = flow \<or> flow1 = store_vals dict_name g flow (JDict m1)"
      by blast
    from f1 pd ne have pd1: "subscript flow1 p = Inr pd"
      by (auto simp: subscript_store_vals)
    from update_from_slot_map [OF oks wf_json_subscript [OF wpd sd], of g flow1 m1]
    obtain m flow' where
      u2: "update_from dict_name g flow1 (JDict m1) sd = (Inr (JDict m), flow')"
      and l2: "lookup m = lookup m1 ++ slot_map dict_name sd"
      by blast
    from g v pd u1 pd1 sd u2
    have "get_ovs_raw dict_name flow (Some p) (Some s) = (Inr (JDict m), flow')"
      by (simp add: get_ovs_raw_def Let_def)
    with l1 l2 a show ?thesis by simp
  qed
  from none plat stg show ?thesis by blast
qed

theorem get_ovs_raw_replaces_witness:
  "wf_json example_flow \<and> has_slot_map ''values'' example_flow \<and>
   (\<exists>m. get_ovs_raw ''values'' example_flow None None = (Inr (JDict m), example_flow) \<and>
      lookup m ''X'' = Some (JList [JNum 1, JNum 2])) \<and>
   (\<exists>m flow'. get_ovs_raw ''values'' example_flow (Some ''xc7'') None = (Inr (JDict m), flow') \<and>
      lookup m ''X'' = Some (JList [JNum 3]) \<and> lookup m ''Z'' = Some (JList [JNum 9])) \<and>
   (\<exists>m flow'. get_ovs_raw ''values'' example_flow (Some ''xc7'') (Some ''synth'') =
        (Inr (JDict m), flow') \<and>
      lookup m ''X'' = Some (JList [JNum 3]) \<and> lookup m ''Z'' = Some (JList []))"
proof -
  let ?pd = "JDict [(KStr ''values'', JDict [(KStr ''X'', JList [JNum 3])]),
                    (KStr ''synth'', JDict [(KStr ''values'', JDict [(KStr ''Z'', JList [])])])]"
  let ?sd = "JDict [(KStr ''values'', JDict [(KStr ''Z'', JList [])])]"
  have w: "wf_json example_flow"
    by (simp add: example_flow_def)
  have g: "has_slot_map ''values'' example_flow"
    by (simp add: example_flow_def has_slot_map_def attr_get_def py_get_def)
  have p: "subscript example_flow ''xc7'' = Inr ?pd \<and> has_slot_map ''values'' ?pd"
    by (simp add: example_flow_def has_slot_map_def attr_get_def py_get_def subscript_def)
  have s: "''xc7'' \<noteq> ''values'' \<and> subscript example_flow ''xc7'' = Inr ?pd \<and>
           has_slot_map ''values'' ?pd \<and> subscript ?pd ''synth'' = Inr ?sd \<and>
           has_slot_map ''values'' ?sd"
    by (simp add: example_flow_def has_slot_map_def attr_get_def py_get_def subscript_def)
  have mg: "slot_map ''values'' example_flow ''X'' = Some (JList [JNum 1, JNum 2])"
    by (simp add: example_flow_def slot_map_def attr_get_def py_get_def lookup_def)
  have mp: "(slot_map ''values'' example_flow ++ slot_map ''values'' ?pd) ''X'' =
              Some (JList [JNum 3])"
    "(slot_map ''values'' example_flow ++ slot_map ''values'' ?pd) ''Z'' = Some (JList [JNum 9])"
    by (simp_all add: example_flow_def slot_map_def attr_get_def py_get_def lookup_def map_add_def)
  have ms: "(slot_map ''values'' example_flow ++ slot_map ''values'' ?pd ++
              slot_map ''values'' ?sd) ''X'' = Some (JList [JNum 3])"
    "(slot_map ''values'' example_flow ++ slot_map ''values'' ?pd ++
              slot_map ''values'' ?sd) ''Z'' = Some (JList [])"
    by (simp_all add: example_flow_def slot_map_def attr_get_def py_get_def lookup_def map_add_def)
  note t = get_ovs_raw_replaces [OF w g, of None]
  note t1 = t [THEN conjunct1]
  note t2 = t [THEN conjunct2, THEN conjunct1, rule_format, OF p]
  note t3 = t [THEN conjunct2, THEN conjunct2, rule_format, OF s]
  from t1 obtain m0 where
    r0: "get_ovs_raw ''values'' example_flow None None = (Inr (JDict m0), example_flow)"
    and l0: "lookup m0 = slot_map ''values'' example_flow"
    by (elim exE conjE)
  from mg have "lookup m0 ''X'' = Some (JList [JNum 1, JNum 2])"
    unfolding l0 .
  with r0 have 1: "\<exists>m. get_ovs_raw ''values'' example_flow None None =
      (Inr (JDict m), example_flow) \<and> lookup m ''X'' = Some (JList [JNum 1, JNum 2])"
    by (intro exI [of _ m0] conjI)
  from t2 obtain m1 f1 where
    r1: "get_ovs_raw ''values'' example_flow (Some ''xc7'') None = (Inr (JDict m1), f1)"
    and l1: "lookup m1 = slot_map ''values'' example_flow ++ slot_map ''values'' ?pd"
    by (elim exE conjE)
  from mp have "lookup m1 ''X'' = Some (JList [JNum 3])" "lookup m1 ''Z'' = Some (JList [JNum 9])"
    unfolding l1 .
  with r1 have 2: "\<exists>m flow'. get_ovs_raw ''values'' example_flow (Some ''xc7'') None =
      (Inr (JDict m), flow') \<and>
      lookup m ''X'' = Some (JList [JNum 3]) \<and> lookup m ''Z'' = Some (JList [JNum 9])"
    by (intro exI [of _ m1] exI [of _ f1] conjI)
  from t3 obtain m2 f2 where
    r2: "get_ovs_raw ''values'' example_flow (Some ''xc7'') (Some ''synth'') = (Inr (JDict m2), f2)"
    and l2: "lookup m2 = slot_map ''values'' example_flow ++ slot_map ''values'' ?pd ++
       slot_map ''values'' ?sd"
    by (elim exE conjE)
  from ms have "lookup m2 ''X'' = Some (JList [JNum 3])" "lookup m2 ''Z'' = Some (JList [])"
    unfolding l2 .
  with r2 have 3: "\<exists>m flow'. get_ovs_raw ''values'' example_flow (Some ''xc7'') (Some ''synth'') =
        (Inr (JDict m), flow') \<and>
      lookup m ''X'' = Some (JList [JNum 3]) \<and> lookup m ''Z'' = Some (JList [])"
    by (intro exI [of _ m2] exI [of _ f2] conjI)
  from w g 1 2 3 show ?thesis by (intro conjI)
qed

text \<open>
  The update of a dictionary from a value that is not one, at the shapes Python accepts
  and refuses; and an aggregation at a platform that holds a list of pairs for the slot
  kind.
\<close>

lemma update_dict_examples:
  "update_dict [(KStr ''z'', JNum 0)] (JList []) = (Inr (), [(KStr ''z'', JNum 0)])"
  "update_dict [(KStr ''z'', JNum 0)] (JStr []) = (Inr (), [(KStr ''z'', JNum 0)])"
  "update_dict [(KStr ''z'', JNum 0)] (JList [JList [JStr ''K'', JList [JNum 2]]]) =
     (Inr (), [(KStr ''z'', JNum 0), (KStr ''K'', JList [JNum 2])])"
  "update_dict [(KStr ''z'', JNum 0)] (JList [JStr ''ab'']) =
     (Inr (), [(KStr ''z'', JNum 0), (KStr ''a'', JStr ''b'')])"
  "update_dict [(KStr ''z'', JNum 0)] (JStr ''abc'') = (Inl ValueError, [(KStr ''z'', JNum 0)])"
  "update_dict [(KStr ''z'', JNum 0)] (JNum 5) = (Inl TypeError, [(KStr ''z'', JNum 0)])"
  "update_dict [(KStr ''z'', JNum 0)] (JList [JList [JStr ''a'', JNum 1], JList [JStr ''b'']]) =
     (Inl ValueError, [(KStr ''z'', JNum 0), (KStr ''a'', JNum 1)])"
  "update_dict [(KBool True, JStr ''b'')] (JList [JList [JNum 1, JStr ''n'']]) =
     (Inr (), [(KBool True, JStr ''n'')])"
  by simp_all

lemma get_ovs_raw_pairs_example:
  "get_ovs_raw ''values''
     (JDict [(KStr ''xc7'', JDict [(KStr ''values'', JList [JList [JStr ''K'', JList [JNum 2]]])])])
     (Some ''xc7'') None =
     (Inr (JDict [(KStr ''K'', JList [JNum 2])]),
      JDict [(KStr ''xc7'', JDict [(KStr ''values'', JList [JList [JStr ''K'', JList [JNum 2]]])])])"
  by (simp add: raw_defs)

text \<open>
  C2 fails on the code. When the document has a global map for the slot kind,
  \<open>get_ovs_raw\<close> updates that very map: after \<open>get_values_raw\<close> for the platform
  \<open>xc7\<close>, the global \<open>X\<close> of the document is \<open>[3]\<close> and no longer \<open>[1, 2]\<close>.
\<close>

theorem get_values_raw_mutates_document:
  "get_values_raw
     \<lparr>flow_cfg = JDict [(KStr ''values'', JDict [(KStr ''X'', JList [JNum 1, JNum 2])]),
                        (KStr ''xc7'', JDict [(KStr ''values'', JDict [(KStr ''X'', JList [JNum 3])])])],
      path = ''flow.json''\<rparr> (Some ''xc7'') None =
     (Inr (JDict [(KStr ''X'', JList [JNum 3])]),
      \<lparr>flow_cfg = JDict [(KStr ''values'', JDict [(KStr ''X'', JList [JNum 3])]),
                         (KStr ''xc7'', JDict [(KStr ''values'', JDict [(KStr ''X'', JList [JNum 3])])])],
       path = ''flow.json''\<rparr>)"
  by (simp add: get_values_raw_def raw_defs)

section \<open>Removal by value\<close>

lemma rm_ov_by_values_unset:
  assumes "read_slot (get_ov_dict dname) flow platform stage name = Inr JNull"
  shows "\<exists>flow1. rm_ov_by_values (get_ov_dict dname) notset notlist flow name vals platform stage =
           (Inr False, [notlist name], flow1)"
proof -
  from assms obtain flow1 kvs where
    g: "get_ov_dict dname flow platform stage = (Inr (ov_path dname platform stage), flow1)"
    and d: "deref flow1 (ov_path dname platform stage) = Some (JDict kvs)"
    and s: "py_get kvs name = JNull"
    by (rule read_slot_result)
  then show ?thesis
    by (simp add: rm_ov_by_values_def type_is_None_def)
qed

lemma rm_ov_by_values_list:
  assumes r: "read_slot (get_ov_dict dname) flow platform stage name = Inr (JList vallist)"
    and h: "list_all hashable vals" "list_all hashable vallist"
  shows "\<exists>flow2. rm_ov_by_values (get_ov_dict dname) notset notlist flow name vals platform stage =
           (Inr True, [], flow2) \<and>
         read_slot (get_ov_dict dname) flow2 platform stage name =
           Inr (JList (filter (\<lambda>val. \<not> py_in val vals) vallist))"
proof -
  from r obtain kvs where
    g: "get_ov_dict dname flow platform stage = (Inr (ov_path dname platform stage), flow)"
    and d: "deref flow (ov_path dname platform stage) = Some (JDict kvs)"
    and s: "py_get kvs name = JList vallist"
    by (rule read_slot_list_unchanged)
  from h have f: "filter_not_in vallist vals = Inr (filter (\<lambda>val. \<not> py_in val vals) vallist)"
    by (simp add: filter_not_in_def)
  have "rm_ov_by_values (get_ov_dict dname) notset notlist flow name vals platform stage =
          (Inr True, [], assign flow (ov_path dname platform stage @ [name])
             (JList (filter (\<lambda>val. \<not> py_in val vals) vallist)))"
    by (simp add: rm_ov_by_values_def g d s f)
  with read_slot_after_assign [OF d] show ?thesis by simp
qed

lemma rm_ov_by_values_idempotent:
  assumes r: "read_slot (get_ov_dict dname) flow platform stage name = Inr (JList vallist)"
    and h: "list_all hashable vals" "list_all hashable vallist"
  shows "\<exists>flow2 flow3.
           rm_ov_by_values (get_ov_dict dname) notset notlist flow name vals platform stage =
             (Inr True, [], flow2) \<and>
           rm_ov_by_values (get_ov_dict dname) notset notlist flow2 name vals platform stage =
             (Inr True, [], flow3) \<and>
           read_slot (get_ov_dict dname) flow3 platform stage name =
             read_slot (get_ov_dict dname) flow2 platform stage name"
proof -
  let ?kept = "filter (\<lambda>val. \<not> py_in val vals) vallist"
  from rm_ov_by_values_list [OF r h, of notset notlist] obtain flow2 where
    a: "rm_ov_by_values (get_ov_dict dname) notset notlist flow name vals platform stage =
          (Inr True, [], flow2)"
    and b: "read_slot (get_ov_dict dname) flow2 platform stage name = Inr (JList ?kept)"
    by blast
  from h(2) have "list_all hashable ?kept" by (simp add: list_all_iff)
  from rm_ov_by_values_list [OF b h(1) this, of notset notlist] a b
  show ?thesis by auto
qed

text \<open>
  C6 fails on the code for an unset slot. The test \<open>type(vallist) is None\<close> is never
  true, so the message of the unset slot is never printed: removal by value from an
  unset slot prints the message of a slot that is not a list.
\<close>

theorem rm_ov_by_values_unset_message:
  "remove_values_by_values (JDict [(KStr ''values'', JDict [])]) ''X'' [JStr ''a''] None None =
     (Inr False, [''Value `X` is not a list! Use unsetv instead.''],
      JDict [(KStr ''values'', JDict [])])"
  by (simp add: remove_values_by_values_def rm_ov_by_values_def get_vals_dict_def
      type_is_None_def val_notlist_str_constr_def store_defs)

section \<open>Platforms\<close>

lemma platforms_no_kword:
  "platforms self = Inr ps \<Longrightarrow> p \<in> set ps \<Longrightarrow> \<not> is_kword p"
  by (auto simp: platforms_def split: json.splits)

text \<open>
  C8 fails on the code for a platform that is present and empty. \<open>add_platform\<close> tests
  the truth value of what the key holds, and an empty dictionary is false: adding the
  platform \<open>xc7\<close> to a document that already holds \<open>xc7\<close> with nothing in it returns
  \<open>True\<close> and prints nothing.
\<close>

theorem add_platform_twice:
  "add_platform \<lparr>flow_cfg = JDict [(KStr ''xc7'', JDict [])], path = ''flow.json''\<rparr> ''xc7'' =
     (Inr True, [], \<lparr>flow_cfg = JDict [(KStr ''xc7'', JDict [])], path = ''flow.json''\<rparr>)"
  by (simp add: add_platform_def py_get_def)

section \<open>Flow configuration\<close>

lemmas example_defs = example_heap_def example_project_def example_definition_def

lemmas config_defs =
  FlowConfig_init_def get_values_raw_def get_dependencies_raw_def
  get_stage_value_overrides_def add_values_def copy_env_def





lemma FlowConfig_init_result:
  assumes "FlowConfig_init resolve_paths h pc D platform = (Inr fc, h', pc')"
  obtains mapping pc1 raw_project_deps stages' where
    "get_values_raw pc (Some platform) None = (Inr (JDict mapping), pc1)"
    "get_dependencies_raw pc1 (Some platform) = (Inr raw_project_deps, pc')"
    "override_stages pc' platform (stage_dicts h (fd_stages D)) = (Inr (), stages')"
    "envs h' = (envs h)(fd_r_env D := add_values (envs h (fd_r_env D)) mapping)"
    "stage_dicts h' = (stage_dicts h)(fd_stages D := stages')"
    "fc_r_env fc = fd_r_env D" "fc_stages fc = fd_stages D" "fc_platform fc = platform"
  using assms
  by (auto simp: FlowConfig_init_def Let_def split: prod.splits sum.splits json.splits)

lemma get_values_raw_wf:
  assumes "get_values_raw pc platform stage = (r, pc1)" and "wf_json (flow_cfg pc)"
  shows "wf_json (flow_cfg pc1) \<and> (\<forall>v. r = Inr v \<longrightarrow> wf_json v)"
  using assms get_ovs_raw_wf [of "''values''" "flow_cfg pc" platform stage]
  by (auto simp: get_values_raw_def split: prod.splits)





text \<open>
  A project whose stage holds an empty list where its value overrides would be: the
  update of the stage's overrides from the empty list assigns nothing, and the flow
  configuration is constructed.
\<close>

lemma FlowConfig_init_empty_list_overrides:
  "\<exists>fc h'.
     FlowConfig_init (\<lambda>env deps. deps) example_heap
       \<lparr>flow_cfg = JDict
          [(KStr ''xc7'', JDict [(KStr ''synth'', JDict [(KStr ''values'', JList [])])])],
        path = ''flow.json''\<rparr>
       example_definition ''xc7'' =
     (Inr fc, h',
      \<lparr>flow_cfg = JDict
          [(KStr ''xc7'', JDict [(KStr ''synth'', JDict [(KStr ''values'', JList [])])])],
        path = ''flow.json''\<rparr>) \<and>
     get_r_env h' fc ''synth'' = Inr [(KStr ''Y'', JNum 1), (KStr ''Z'', JNum 9)]"
  by (simp add: example_defs config_defs raw_defs get_r_env_def)

text \<open>
  C10. The flow configuration holds the very environment of the flow definition, and the
  construction adds the platform's values into it. After the construction the
  definition's environment holds every platform value; so does the environment that the
  definition returns for a stage, for every name the stage does not override; and a
  flow configuration built later from the same definition starts from the environment
  that already holds them.
\<close>

theorem FlowConfig_init_aliases_r_env:
  assumes init: "FlowConfig_init resolve_paths h pc D platform = (Inr fc, h', pc')"
    and wf: "wf_json (flow_cfg pc)"
  shows "fc_r_env fc = fd_r_env D \<and>
         (\<exists>platform_vals.
            fst (get_values_raw pc (Some platform) None) = Inr (JDict platform_vals) \<and>
            envs h' (fd_r_env D) = add_values (envs h (fd_r_env D)) platform_vals \<and>
            (\<forall>k v. lookup platform_vals k = Some v \<longrightarrow>
               lookup (envs h' (fd_r_env D)) k = Some v \<and>
               (\<forall>name stage. map_of (stage_dicts h' (fd_stages D)) name = Some stage \<and>
                    lookup (value_overrides stage) k = None \<longrightarrow>
                  (\<exists>env. get_stage_r_env h' D name = Inr env \<and> lookup env k = Some v))) \<and>
            (\<forall>resolve_paths2 platform2 fc2 h2 pc2.
               FlowConfig_init resolve_paths2 h' pc' D platform2 = (Inr fc2, h2, pc2) \<longrightarrow>
               fc_r_env fc2 = fc_r_env fc \<and>
               (\<exists>platform_vals2.
                  envs h2 (fd_r_env D) =
                    add_values (add_values (envs h (fd_r_env D)) platform_vals) platform_vals2)))"
proof -
  from init obtain mapping pc1 where
    v: "get_values_raw pc (Some platform) None = (Inr (JDict mapping), pc1)"
    and e: "envs h' = (envs h)(fd_r_env D := add_values (envs h (fd_r_env D)) mapping)"
    and fc: "fc_r_env fc = fd_r_env D"
    by (rule FlowConfig_init_result)
  from get_values_raw_wf [OF v wf] have dm: "distinct (map fst mapping)" by simp
  have look: "lookup (envs h' (fd_r_env D)) k = Some x" if "lookup mapping k = Some x" for k x
    using that by (simp add: e add_values_def lookup_dict_update dm)
  have stage_env: "\<exists>env. get_stage_r_env h' D name = Inr env \<and> lookup env k = Some x"
    if "lookup mapping k = Some x" "map_of (stage_dicts h' (fd_stages D)) name = Some stage"
      "lookup (value_overrides stage) k = None" for k x name stage
    using that look [OF that(1)]
    by (simp add: get_stage_r_env_def add_values_def copy_env_def lookup_dict_update_other)
  have later: "fc_r_env fc2 = fc_r_env fc \<and>
      (\<exists>platform_vals2. envs h2 (fd_r_env D) =
          add_values (add_values (envs h (fd_r_env D)) mapping) platform_vals2)"
    if i2: "FlowConfig_init resolve_paths2 h' pc' D platform2 = (Inr fc2, h2, pc2)"
    for resolve_paths2 platform2 fc2 h2 pc2
  proof -
    from i2 obtain mapping2 where
      "envs h2 = (envs h')(fd_r_env D := add_values (envs h' (fd_r_env D)) mapping2)"
      "fc_r_env fc2 = fd_r_env D"
      by (rule FlowConfig_init_result)
    with e fc show ?thesis by auto
  qed
  have a: "fst (get_values_raw pc (Some platform) None) = Inr (JDict mapping)"
    using v by simp
  have b: "envs h' (fd_r_env D) = add_values (envs h (fd_r_env D)) mapping"
    using e by simp
  have c: "\<forall>k v. lookup mapping k = Some v \<longrightarrow>
               lookup (envs h' (fd_r_env D)) k = Some v \<and>
               (\<forall>name stage. map_of (stage_dicts h' (fd_stages D)) name = Some stage \<and>
                    lookup (value_overrides stage) k = None \<longrightarrow>
                  (\<exists>env. get_stage_r_env h' D name = Inr env \<and> lookup env k = Some v))"
    using look stage_env by blast
  have d: "\<forall>resolve_paths2 platform2 fc2 h2 pc2.
               FlowConfig_init resolve_paths2 h' pc' D platform2 = (Inr fc2, h2, pc2) \<longrightarrow>
               fc_r_env fc2 = fc_r_env fc \<and>
               (\<exists>platform_vals2.
                  envs h2 (fd_r_env D) =
                    add_values (add_values (envs h (fd_r_env D)) mapping) platform_vals2)"
    using later by blast
  from fc a b c d show ?thesis by blast
qed

theorem FlowConfig_init_aliases_r_env_witness:
  "wf_json (flow_cfg example_project) \<and>
   (\<exists>fc h' fc2 h2.
      FlowConfig_init (\<lambda>env deps. deps) example_heap example_project example_definition ''xc7'' =
        (Inr fc, h', example_project) \<and>
      fc_r_env fc = fd_r_env example_definition \<and>
      lookup (envs example_heap (fd_r_env example_definition)) ''Y'' = Some (JNum 1) \<and>
      lookup (envs h' (fd_r_env example_definition)) ''Y'' = Some (JNum 2) \<and>
      (\<exists>env. get_stage_r_env h' example_definition ''synth'' = Inr env \<and>
         lookup env ''W'' = Some (JNum 5)) \<and>
      FlowConfig_init (\<lambda>env deps. deps) h' example_project example_definition ''xc7'' =
        (Inr fc2, h2, example_project) \<and>
      fc_r_env fc2 = fc_r_env fc \<and>
      (\<exists>platform_vals2.
         envs h2 (fd_r_env example_definition) =
           add_values
             (add_values (envs example_heap (fd_r_env example_definition))
                [(KStr ''Y'', JNum 2), (KStr ''W'', JNum 5)])
             platform_vals2))"
proof -
  have w: "wf_json (flow_cfg example_project)"
    by (simp add: example_defs)
  obtain fc h' fc2 h2 where i:
    "FlowConfig_init (\<lambda>env deps. deps) example_heap example_project example_definition ''xc7'' =
       (Inr fc, h', example_project)"
    and i2:
    "FlowConfig_init (\<lambda>env deps. deps) h' example_project example_definition ''xc7'' =
       (Inr fc2, h2, example_project)"
    and s: "map_of (stage_dicts h' (fd_stages example_definition)) ''synth'' =
       Some \<lparr>stage_name = ''synth'', value_overrides = [(KStr ''Y'', JNum 3)]\<rparr>"
    by (simp add: example_defs config_defs raw_defs)
  have pv: "fst (get_values_raw example_project (Some ''xc7'') None) =
      Inr (JDict [(KStr ''Y'', JNum 2), (KStr ''W'', JNum 5)])"
    by (simp add: example_defs config_defs raw_defs)
  have y: "lookup [(KStr ''Y'', JNum 2), (KStr ''W'', JNum 5)] ''Y'' = Some (JNum 2)"
    "lookup [(KStr ''Y'', JNum 2), (KStr ''W'', JNum 5)] ''W'' = Some (JNum 5)"
    by (simp_all add: lookup_def)
  have n: "lookup (value_overrides
        \<lparr>stage_name = ''synth'', value_overrides = [(KStr ''Y'', JNum 3)]\<rparr>) ''W'' = None"
    by (simp add: lookup_def)
  have base: "lookup (envs example_heap (fd_r_env example_definition)) ''Y'' = Some (JNum 1)"
    by (simp add: example_defs lookup_def)
  note t = FlowConfig_init_aliases_r_env [OF i w]
  from t have a: "fc_r_env fc = fd_r_env example_definition"
    by (rule conjunct1)
  from t obtain platform_vals where
    p: "fst (get_values_raw example_project (Some ''xc7'') None) = Inr (JDict platform_vals)"
    and b: "\<forall>k v. lookup platform_vals k = Some v \<longrightarrow>
       lookup (envs h' (fd_r_env example_definition)) k = Some v \<and>
       (\<forall>name stage.
           map_of (stage_dicts h' (fd_stages example_definition)) name = Some stage \<and>
           lookup (value_overrides stage) k = None \<longrightarrow>
           (\<exists>env. get_stage_r_env h' example_definition name = Inr env \<and> lookup env k = Some v))"
    and c: "\<forall>resolve_paths2 platform2 fc2 h2 pc2.
       FlowConfig_init resolve_paths2 h' example_project example_definition platform2 =
         (Inr fc2, h2, pc2) \<longrightarrow>
       fc_r_env fc2 = fc_r_env fc \<and>
       (\<exists>platform_vals2.
          envs h2 (fd_r_env example_definition) =
            add_values
              (add_values (envs example_heap (fd_r_env example_definition)) platform_vals)
              platform_vals2)"
    by (elim exE conjE)
  from p pv have pe: "platform_vals = [(KStr ''Y'', JNum 2), (KStr ''W'', JNum 5)]"
    by simp
  from b [unfolded pe, rule_format, OF y(1)]
  have 1: "lookup (envs h' (fd_r_env example_definition)) ''Y'' = Some (JNum 2)"
    by (rule conjunct1)
  from b [unfolded pe, rule_format, OF y(2), THEN conjunct2, rule_format, OF conjI [OF s n]]
  have 2: "\<exists>env. get_stage_r_env h' example_definition ''synth'' = Inr env \<and>
         lookup env ''W'' = Some (JNum 5)" .
  from c [unfolded pe, rule_format, OF i2]
  have 3: "fc_r_env fc2 = fc_r_env fc \<and>
       (\<exists>platform_vals2.
          envs h2 (fd_r_env example_definition) =
            add_values
              (add_values (envs example_heap (fd_r_env example_definition))
                 [(KStr ''Y'', JNum 2), (KStr ''W'', JNum 5)])
              platform_vals2)" .
  from i a base 1 2 i2 3 have "\<exists>fc h' fc2 h2.
      FlowConfig_init (\<lambda>env deps. deps) example_heap example_project example_definition ''xc7'' =
        (Inr fc, h', example_project) \<and>
      fc_r_env fc = fd_r_env example_definition \<and>
      lookup (envs example_heap (fd_r_env example_definition)) ''Y'' = Some (JNum 1) \<and>
      lookup (envs h' (fd_r_env example_definition)) ''Y'' = Some (JNum 2) \<and>
      (\<exists>env. get_stage_r_env h' example_definition ''synth'' = Inr env \<and>
         lookup env ''W'' = Some (JNum 5)) \<and>
      FlowConfig_init (\<lambda>env deps. deps) h' example_project example_definition ''xc7'' =
        (Inr fc2, h2, example_project) \<and>
      fc_r_env fc2 = fc_r_env fc \<and>
      (\<exists>platform_vals2.
         envs h2 (fd_r_env example_definition) =
           add_values
             (add_values (envs example_heap (fd_r_env example_definition))
                [(KStr ''Y'', JNum 2), (KStr ''W'', JNum 5)])
             platform_vals2)"
    by (intro exI [of _ fc] exI [of _ h'] exI [of _ fc2] exI [of _ h2]) (elim conjE, intro conjI)
  with w show ?thesis by (intro conjI)
qed

end
